theory Spec2Isabelle
  imports Main "HOL-Library.Multiset"
begin

section \<open>StreakMate: the habit list, its streak rules and its leaderboard\<close>

text \<open>
  The program is one React Native component, \<^verbatim>\<open>src/index.tsx\<close>. Its logic is a handful of
  pure helpers (\<^verbatim>\<open>isToday\<close>, \<^verbatim>\<open>isYesterday\<close>, \<^verbatim>\<open>resetStreaksIfNeeded\<close>) and the handlers
  of the component (\<^verbatim>\<open>loadHabits\<close>, \<^verbatim>\<open>saveHabits\<close>, \<^verbatim>\<open>toggleHabit\<close>, \<^verbatim>\<open>deleteHabit\<close>,
  \<^verbatim>\<open>addHabit\<close>, \<^verbatim>\<open>getLeaderboardData\<close>). The handlers read and replace the component's
  state and one item of the device's key-value storage; they are modelled by explicit state
  passing over the record \<open>App\<close>.

  Conventions of the model.
  \<^item> A JavaScript \<^verbatim>\<open>number\<close> holding a streak is an \<open>int\<close>: streaks are counters that start
    at 0 and move by 1, far below \<open>2^53\<close>, where the two arithmetics agree.
  \<^item> A JavaScript string is a \<open>string\<close> whose characters are the code units 0..255.
  \<^item> \<^verbatim>\<open>string | null\<close> is \<open>string option\<close>. The source tests such values for truthiness
    (\<^verbatim>\<open>!dateString\<close>), and the empty string is falsy as \<^verbatim>\<open>null\<close> is.
  \<^item> What the JavaScript platform supplies and the repository does not define (reading a
    date from text, the JSON codec) is a field of the record \<open>Platform\<close>; a reading of
    the device clock is a \<open>Clock\<close>. Theorems hold for every platform and every clock.
  \<^item> Record fields keep the source's names; \<^verbatim>\<open>id\<close> and \<^verbatim>\<open>name\<close> occur in both
    interfaces and carry the prefix \<open>h_\<close> (Habit) or \<open>p_\<close> (Person).
\<close>

subsection \<open>Data model\<close>

record Habit =
  h_id :: string
  h_name :: string
  streak :: int
  lastCompleted :: "string option"
  createdAt :: string

text \<open>
  Of a JavaScript \<^verbatim>\<open>Date\<close> the program reads only the three local calendar fields:
  \<^verbatim>\<open>getFullYear()\<close>, \<^verbatim>\<open>getMonth()\<close> (0 to 11) and \<^verbatim>\<open>getDate()\<close> (1 to 31).
\<close>

record Date =
  getFullYear :: int
  getMonth :: int
  getDate :: int

text \<open>
  \<open>Date_parse s\<close> is \<^verbatim>\<open>new Date(s)\<close>: \<open>None\<close> stands for an Invalid Date, whose getters
  return \<^verbatim>\<open>NaN\<close>. \<open>JSON_parse\<close> is \<^verbatim>\<open>JSON.parse\<close> read at the type \<^verbatim>\<open>Habit[]\<close>:
  \<open>None\<close> stands for a text on which the \<^verbatim>\<open>try\<close> block of \<^verbatim>\<open>loadHabits\<close> throws.
\<close>

record Platform =
  Date_parse :: "string \<Rightarrow> Date option"
  JSON_parse :: "string \<Rightarrow> Habit list option"
  JSON_stringify :: "Habit list \<Rightarrow> string"

text \<open>
  One reading of the device clock: \<open>now\<close> is \<^verbatim>\<open>new Date()\<close>, \<open>toISOString\<close> is
  \<^verbatim>\<open>new Date().toISOString()\<close> and \<open>Date_now\<close> is \<^verbatim>\<open>Date.now().toString()\<close>.
\<close>

record Clock =
  now :: Date
  toISOString :: string
  Date_now :: string

subsection \<open>Calendar helpers\<close>

definition isLeapYear :: "int \<Rightarrow> bool" where
  "isLeapYear y \<longleftrightarrow> (y mod 4 = 0 \<and> y mod 100 \<noteq> 0) \<or> y mod 400 = 0"

definition daysInMonth :: "int \<Rightarrow> int \<Rightarrow> int" where
  "daysInMonth y m =
     (if m = 1 then (if isLeapYear y then 29 else 28)
      else if m = 3 \<or> m = 5 \<or> m = 8 \<or> m = 10 then 30
      else 31)"

text \<open>
  \<^verbatim>\<open>d.setDate(n)\<close>. The program calls it only as \<^verbatim>\<open>setDate(getDate() - 1)\<close>, so \<open>n\<close>
  lies in 0..30 and is below the day of \<open>d\<close>: a positive \<open>n\<close> stays in the month of \<open>d\<close>,
  and 0 is the last day of the month before.
\<close>

definition setDate :: "Date \<Rightarrow> int \<Rightarrow> Date" where
  "setDate d n =
     (if 1 \<le> n then d\<lparr>getDate := n\<rparr>
      else if getMonth d = 0
        then d\<lparr>getFullYear := getFullYear d - 1, getMonth := 11, getDate := 31 + n\<rparr>
      else d\<lparr>getMonth := getMonth d - 1,
              getDate := daysInMonth (getFullYear d) (getMonth d - 1) + n\<rparr>)"

text \<open>\<^verbatim>\<open>!dateString\<close>: \<^verbatim>\<open>null\<close> and the empty string are the falsy values of the type.\<close>

definition falsy :: "string option \<Rightarrow> bool" where
  "falsy dateString \<longleftrightarrow> dateString = None \<or> dateString = Some []"

text \<open>
  The three-field comparison that \<^verbatim>\<open>isToday\<close> and \<^verbatim>\<open>isYesterday\<close> both write out. An
  Invalid Date compares unequal to everything (\<^verbatim>\<open>NaN === x\<close> is false).
\<close>

definition sameFields :: "Date option \<Rightarrow> Date \<Rightarrow> bool" where
  "sameFields date d =
     (case date of
        None \<Rightarrow> False
      | Some dt \<Rightarrow> getDate dt = getDate d \<and> getMonth dt = getMonth d
                   \<and> getFullYear dt = getFullYear d)"

definition isToday :: "Platform \<Rightarrow> Clock \<Rightarrow> string option \<Rightarrow> bool" where
  "isToday P c dateString =
     (if falsy dateString then False
      else case dateString of
        None \<Rightarrow> False
      | Some s \<Rightarrow> (let date = Date_parse P s; today = now c in sameFields date today))"

definition isYesterday :: "Platform \<Rightarrow> Clock \<Rightarrow> string option \<Rightarrow> bool" where
  "isYesterday P c dateString =
     (if falsy dateString then False
      else case dateString of
        None \<Rightarrow> False
      | Some s \<Rightarrow>
          (let date = Date_parse P s;
               yesterday = now c;
               yesterday = setDate yesterday (getDate yesterday - 1)
           in sameFields date yesterday))"

subsection \<open>The lapse reset\<close>

definition resetHabit :: "Platform \<Rightarrow> Clock \<Rightarrow> Habit \<Rightarrow> Habit" where
  "resetHabit P c habit =
     (if falsy (lastCompleted habit) then habit
      else let completedToday = isToday P c (lastCompleted habit);
               completedYesterday = isYesterday P c (lastCompleted habit)
           in if \<not> completedToday \<and> \<not> completedYesterday then habit\<lparr>streak := 0\<rparr>
              else habit)"

definition resetStreaksIfNeeded :: "Platform \<Rightarrow> Clock \<Rightarrow> Habit list \<Rightarrow> Habit list" where
  "resetStreaksIfNeeded P c habits = map (resetHabit P c) habits"

subsection \<open>The component's state and the device storage\<close>

datatype Screen = Home | Add | Leaderboard

text \<open>
  What the \<^verbatim>\<open>try\<close> blocks can catch: \<open>SyntaxError\<close> when the stored text cannot be
  read as a habit list (\<^verbatim>\<open>JSON.parse\<close> rejects it, or the value it returns is not an
  array of objects and the reset throws on it), and \<open>StorageError\<close> when \<^verbatim>\<open>AsyncStorage\<close>
  refuses the call.
\<close>

datatype error = SyntaxError | StorageError

text \<open>
  \<open>screen\<close>, \<open>habits\<close> and \<open>newHabitName\<close> are the three \<^verbatim>\<open>useState\<close> cells.
  \<open>storage\<close> is the item stored under \<^verbatim>\<open>HABITS_KEY\<close> (\<open>None\<close> when the key is absent);
  \<open>storageFails\<close> says that the device rejects every call. \<open>console\<close> collects the
  calls of \<^verbatim>\<open>console.error\<close> and \<open>alerts\<close> the dialogs opened by \<^verbatim>\<open>Alert.alert\<close>
  (title and message), oldest first.
\<close>

record App =
  screen :: Screen
  habits :: "Habit list"
  newHabitName :: string
  storage :: "string option"
  storageFails :: bool
  console :: "(string \<times> error) list"
  alerts :: "(string \<times> string) list"

definition getItem :: "App \<Rightarrow> error + string option" where
  "getItem st = (if storageFails st then Inl StorageError else Inr (storage st))"

definition setItem :: "string \<Rightarrow> App \<Rightarrow> error + App" where
  "setItem v st = (if storageFails st then Inl StorageError else Inr (st\<lparr>storage := Some v\<rparr>))"

definition console_error :: "string \<Rightarrow> error \<Rightarrow> App \<Rightarrow> App" where
  "console_error msg e st = st\<lparr>console := console st @ [(msg, e)]\<rparr>"

definition Alert_alert :: "string \<Rightarrow> string \<Rightarrow> App \<Rightarrow> App" where
  "Alert_alert title msg st = st\<lparr>alerts := alerts st @ [(title, msg)]\<rparr>"

text \<open>
  \<^verbatim>\<open>try { body } catch (error) { handler }\<close>. A handler of this program returns after
  logging, so the whole statement yields a state; the type still has room for an error
  that escapes, which is what a caller would see of a rethrow.
\<close>

definition try_catch :: "error + App \<Rightarrow> (error \<Rightarrow> error + App) \<Rightarrow> error + App" where
  "try_catch body handler = (case body of Inl e \<Rightarrow> handler e | Inr st \<Rightarrow> Inr st)"

subsection \<open>Persistence\<close>

definition saveHabits :: "Platform \<Rightarrow> Habit list \<Rightarrow> App \<Rightarrow> error + App" where
  "saveHabits P habitsToSave st =
     try_catch (setItem (JSON_stringify P habitsToSave) st)
       (\<lambda>e. Inr (console_error ''Save habits error:'' e st))"

text \<open>
  \<^verbatim>\<open>data ? JSON.parse(data) : []\<close>: an absent item and the empty text are falsy and give the
  empty list without parsing.
\<close>

definition parseStored :: "Platform \<Rightarrow> string option \<Rightarrow> error + Habit list" where
  "parseStored P data =
     (case data of
        None \<Rightarrow> Inr []
      | Some d \<Rightarrow>
          if d = [] then Inr []
          else (case JSON_parse P d of None \<Rightarrow> Inl SyntaxError | Some hs \<Rightarrow> Inr hs))"

definition loadHabits :: "Platform \<Rightarrow> Clock \<Rightarrow> App \<Rightarrow> error + App" where
  "loadHabits P c st =
     try_catch
       (case getItem st of
          Inl e \<Rightarrow> Inl e
        | Inr data \<Rightarrow>
            (case parseStored P data of
               Inl e \<Rightarrow> Inl e
             | Inr loadedHabits \<Rightarrow>
                 (let resetHabits = resetStreaksIfNeeded P c loadedHabits;
                      st1 = st\<lparr>habits := resetHabits\<rparr>
                  in if JSON_stringify P loadedHabits \<noteq> JSON_stringify P resetHabits
                     then saveHabits P resetHabits st1
                     else Inr st1)))
       (\<lambda>e. Inr (console_error ''Load habits error:'' e st))"

subsection \<open>Handlers of the habit list\<close>

text \<open>The body of the \<^verbatim>\<open>map\<close> callback of \<^verbatim>\<open>toggleHabit\<close>.\<close>

definition toggleOne :: "Platform \<Rightarrow> Clock \<Rightarrow> string \<Rightarrow> Habit \<Rightarrow> Habit" where
  "toggleOne P c i habit =
     (if h_id habit = i then
        (let nowISO = toISOString c;
             alreadyDone = isToday P c (lastCompleted habit)
         in if alreadyDone
            then habit\<lparr>streak := max 0 (streak habit - 1), lastCompleted := None\<rparr>
            else habit\<lparr>streak := streak habit + 1, lastCompleted := Some nowISO\<rparr>)
      else habit)"

definition toggleHabit :: "Platform \<Rightarrow> Clock \<Rightarrow> string \<Rightarrow> App \<Rightarrow> error + App" where
  "toggleHabit P c i st =
     (let updated = map (toggleOne P c i) (habits st)
      in saveHabits P updated (st\<lparr>habits := updated\<rparr>))"

text \<open>
  \<^verbatim>\<open>deleteHabit\<close> opens a dialog with two buttons; the press of one of them is an input.
  \<open>Cancel\<close> has no handler; \<open>Delete\<close> runs the \<^verbatim>\<open>onPress\<close> callback.
\<close>

datatype Button = Cancel | Delete

definition deleteHabit :: "Platform \<Rightarrow> string \<Rightarrow> Button \<Rightarrow> App \<Rightarrow> error + App" where
  "deleteHabit P i pressed st =
     (let st1 = Alert_alert ''Delete Habit'' ''Are you sure?'' st
      in case pressed of
           Cancel \<Rightarrow> Inr st1
         | Delete \<Rightarrow>
             (let filtered = filter (\<lambda>h. h_id h \<noteq> i) (habits st1)
              in saveHabits P filtered (st1\<lparr>habits := filtered\<rparr>)))"

text \<open>
  \<^verbatim>\<open>String.prototype.trim\<close> removes white space and line terminators from both ends. Among
  the code units 0..255 these are TAB, LF, VT, FF, CR, SPACE and NO-BREAK SPACE.
\<close>

definition isWhiteSpace :: "char \<Rightarrow> bool" where
  "isWhiteSpace ch \<longleftrightarrow>
     (let n = (of_char ch :: nat)
      in n = 9 \<or> n = 10 \<or> n = 11 \<or> n = 12 \<or> n = 13 \<or> n = 32 \<or> n = 160)"

definition trim :: "string \<Rightarrow> string" where
  "trim s = rev (dropWhile isWhiteSpace (rev (dropWhile isWhiteSpace s)))"

definition addHabit :: "Platform \<Rightarrow> Clock \<Rightarrow> App \<Rightarrow> error + App" where
  "addHabit P c st =
     (if trim (newHabitName st) = []
      then Inr (Alert_alert ''Error'' ''Please enter a habit name'' st)
      else
        (let newHabit = \<lparr>h_id = Date_now c,
                         h_name = trim (newHabitName st),
                         streak = 0,
                         lastCompleted = None,
                         createdAt = toISOString c\<rparr>;
             updated = habits st @ [newHabit]
         in case saveHabits P updated (st\<lparr>habits := updated\<rparr>) of
              Inl e \<Rightarrow> Inl e
            | Inr st1 \<Rightarrow> Inr (st1\<lparr>newHabitName := [], screen := Home\<rparr>)))"

subsection \<open>The leaderboard\<close>

text \<open>
  \<open>p_habits\<close> is the object \<^verbatim>\<open>{ [key: string]: number }\<close> as an association list in
  the order in which the keys were created; \<open>isUser\<close> and \<open>totalStreak\<close> are the optional
  properties. (JavaScript lists keys that are array indices before the others; no
  function of the program depends on the order of the keys.)
\<close>

record Person =
  p_id :: string
  p_name :: string
  p_habits :: "(string \<times> int) list"
  isUser :: "bool option"
  totalStreak :: "int option"

definition MOCK_FRIENDS :: "Person list" where
  "MOCK_FRIENDS =
     [\<lparr>p_id = ''1'', p_name = ''Alex'', p_habits = [(''workout'', 45), (''reading'', 30)],
       isUser = None, totalStreak = None\<rparr>,
      \<lparr>p_id = ''2'', p_name = ''Jordan'', p_habits = [(''workout'', 38), (''meditation'', 22)],
       isUser = None, totalStreak = None\<rparr>,
      \<lparr>p_id = ''3'', p_name = ''Sam'', p_habits = [(''reading'', 50), (''running'', 18)],
       isUser = None, totalStreak = None\<rparr>,
      \<lparr>p_id = ''4'', p_name = ''Taylor'', p_habits = [(''workout'', 28), (''reading'', 35)],
       isUser = None, totalStreak = None\<rparr>]"

text \<open>
  \<^verbatim>\<open>String.prototype.toLowerCase\<close> on the code units 0..255: the letters A to Z, and the
  Latin-1 capitals U+00C0 to U+00DE except the multiplication sign U+00D7.
\<close>

definition lowerChar :: "char \<Rightarrow> char" where
  "lowerChar ch =
     (let n = (of_char ch :: nat)
      in if (65 \<le> n \<and> n \<le> 90) \<or> (192 \<le> n \<and> n \<le> 222 \<and> n \<noteq> 215)
         then char_of (n + 32) else ch)"

definition toLowerCase :: "string \<Rightarrow> string" where
  "toLowerCase s = map lowerChar s"

text \<open>
  \<^verbatim>\<open>acc[key] = value\<close> on an object created by \<^verbatim>\<open>{}\<close>: an existing key keeps its place
  and takes the new value, a new key goes last. The key \<^verbatim>\<open>__proto__\<close> is the accessor
  inherited from \<^verbatim>\<open>Object.prototype\<close>, whose setter ignores a number: no property is
  created.
\<close>

fun setKey :: "string \<Rightarrow> int \<Rightarrow> (string \<times> int) list \<Rightarrow> (string \<times> int) list" where
  "setKey k v [] = [(k, v)]"
| "setKey k v ((k', v') # kvs) = (if k' = k then (k, v) # kvs else (k', v') # setKey k v kvs)"

definition assign :: "(string \<times> int) list \<Rightarrow> string \<Rightarrow> int \<Rightarrow> (string \<times> int) list" where
  "assign acc key v = (if key = ''__proto__'' then acc else setKey key v acc)"

definition Object_values :: "(string \<times> int) list \<Rightarrow> int list" where
  "Object_values obj = map snd obj"

text \<open>The \<^verbatim>\<open>reduce\<close> that builds the habits of the entry "You".\<close>

definition userHabits :: "Habit list \<Rightarrow> (string \<times> int) list" where
  "userHabits hs = foldl (\<lambda>acc h. assign acc (toLowerCase (h_name h)) (streak h)) [] hs"

definition userEntry :: "Habit list \<Rightarrow> Person" where
  "userEntry hs =
     \<lparr>p_id = ''user'', p_name = ''You'', p_habits = userHabits hs,
      isUser = Some True, totalStreak = None\<rparr>"

definition withTotal :: "Person \<Rightarrow> Person" where
  "withTotal p = p\<lparr>totalStreak := Some (foldl (\<lambda>sum s. sum + s) 0 (Object_values (p_habits p)))\<rparr>"

text \<open>\<^verbatim>\<open>p.totalStreak || 0\<close>: an absent total and the total 0 both give 0.\<close>

definition orZero :: "int option \<Rightarrow> int" where
  "orZero t = (case t of None \<Rightarrow> 0 | Some n \<Rightarrow> n)"

definition byTotalDesc :: "Person \<Rightarrow> Person \<Rightarrow> int" where
  "byTotalDesc a b = orZero (totalStreak b) - orZero (totalStreak a)"

text \<open>
  \<^verbatim>\<open>Array.prototype.sort\<close> with a comparator. The language requires the sort to be stable,
  and for a comparator that is a difference of keys every stable sort returns the same
  array; insertion from the right is one.
\<close>

fun insertSorted :: "('a \<Rightarrow> 'a \<Rightarrow> int) \<Rightarrow> 'a \<Rightarrow> 'a list \<Rightarrow> 'a list" where
  "insertSorted cmp x [] = [x]"
| "insertSorted cmp x (y # ys) =
     (if cmp x y \<le> 0 then x # y # ys else y # insertSorted cmp x ys)"

fun Array_sort :: "('a \<Rightarrow> 'a \<Rightarrow> int) \<Rightarrow> 'a list \<Rightarrow> 'a list" where
  "Array_sort cmp [] = []"
| "Array_sort cmp (x # xs) = insertSorted cmp x (Array_sort cmp xs)"

definition getLeaderboardData :: "Habit list \<Rightarrow> Person list" where
  "getLeaderboardData hs =
     (let allData = userEntry hs # MOCK_FRIENDS;
          withTotals = map withTotal allData
      in Array_sort byTotalDesc withTotals)"

section \<open>A concrete device\<close>

text \<open>
  The theorems below hold for every platform. To run the program on concrete inputs, this
  section fixes one: a device whose local time zone is UTC, reading the timestamps that
  \<^verbatim>\<open>toISOString\<close> writes (\<^verbatim>\<open>YYYY-MM-DDTHH:mm:ss.sssZ\<close>), and the JSON text of a
  habit list as \<^verbatim>\<open>JSON.stringify\<close> writes it for the five fields of \<^verbatim>\<open>Habit\<close>.
\<close>

subsection \<open>Timestamps\<close>

definition isDigit :: "char \<Rightarrow> bool" where
  "isDigit ch \<longleftrightarrow> (let n = (of_char ch :: nat) in 48 \<le> n \<and> n \<le> 57)"

definition digitVal :: "char \<Rightarrow> nat" where
  "digitVal ch = of_char ch - 48"

definition readNat :: "string \<Rightarrow> nat option" where
  "readNat ds = (if ds \<noteq> [] \<and> list_all isDigit ds
                 then Some (foldl (\<lambda>n ch. 10 * n + digitVal ch) 0 ds) else None)"

definition between :: "int \<Rightarrow> int \<Rightarrow> int \<Rightarrow> bool" where
  "between lo hi n \<longleftrightarrow> lo \<le> n \<and> n \<le> hi"

text \<open>
  A text of any other layout, or one that names no calendar day, is an Invalid Date for
  this device.
\<close>

definition utcDate :: "string \<Rightarrow> Date option" where
  "utcDate s =
     (if length s = 24 \<and> s ! 4 = CHR ''-'' \<and> s ! 7 = CHR ''-'' \<and> s ! 10 = CHR ''T''
         \<and> s ! 13 = CHR '':'' \<and> s ! 16 = CHR '':'' \<and> s ! 19 = CHR ''.'' \<and> s ! 23 = CHR ''Z''
      then
        (case (readNat (take 4 s), readNat (take 2 (drop 5 s)), readNat (take 2 (drop 8 s)),
               readNat (take 2 (drop 11 s)), readNat (take 2 (drop 14 s)),
               readNat (take 2 (drop 17 s)), readNat (take 3 (drop 20 s))) of
           (Some y, Some m, Some d, Some hh, Some mm, Some ss, Some ms) \<Rightarrow>
             if between 1 12 (int m) \<and> between 1 (daysInMonth (int y) (int m - 1)) (int d)
                \<and> hh \<le> 23 \<and> mm \<le> 59 \<and> ss \<le> 59
             then Some \<lparr>getFullYear = int y, getMonth = int m - 1, getDate = int d\<rparr>
             else None
         | _ \<Rightarrow> None)
      else None)"

subsection \<open>JSON text of a habit list\<close>

definition quoteChar :: char where "quoteChar = CHR 0x22"
definition backslash :: char where "backslash = CHR 0x5C"

definition hexDigit :: "nat \<Rightarrow> char" where
  "hexDigit n = (if n < 10 then char_of (48 + n) else char_of (87 + n))"

definition escapeChar :: "char \<Rightarrow> string" where
  "escapeChar ch =
     (let n = (of_char ch :: nat)
      in if ch = quoteChar then [backslash, quoteChar]
         else if ch = backslash then [backslash, backslash]
         else if n = 8 then [backslash, CHR ''b'']
         else if n = 9 then [backslash, CHR ''t'']
         else if n = 10 then [backslash, CHR ''n'']
         else if n = 12 then [backslash, CHR ''f'']
         else if n = 13 then [backslash, CHR ''r'']
         else if n < 32 then [backslash, CHR ''u'', CHR ''0'', CHR ''0'',
                              hexDigit (n div 16), hexDigit (n mod 16)]
         else [ch])"

definition writeString :: "string \<Rightarrow> string" where
  "writeString s = quoteChar # concat (map escapeChar s) @ [quoteChar]"

fun writeNat :: "nat \<Rightarrow> string" where
  "writeNat n = (if n < 10 then [char_of (48 + n)]
                 else writeNat (n div 10) @ [char_of (48 + n mod 10)])"

text \<open>The equation of \<open>writeNat\<close> is unfolded by hand, one digit at a time.\<close>

declare writeNat.simps [simp del]

definition writeInt :: "int \<Rightarrow> string" where
  "writeInt i = (if i < 0 then CHR ''-'' # writeNat (nat (- i)) else writeNat (nat i))"

definition writeHabit :: "Habit \<Rightarrow> string" where
  "writeHabit h =
     ''{'' @ writeString ''id'' @ '':'' @ writeString (h_id h) @
     '','' @ writeString ''name'' @ '':'' @ writeString (h_name h) @
     '','' @ writeString ''streak'' @ '':'' @ writeInt (streak h) @
     '','' @ writeString ''lastCompleted'' @ '':'' @
        (case lastCompleted h of None \<Rightarrow> ''null'' | Some s \<Rightarrow> writeString s) @
     '','' @ writeString ''createdAt'' @ '':'' @ writeString (createdAt h) @ ''}''"

fun joinComma :: "string list \<Rightarrow> string" where
  "joinComma [] = []"
| "joinComma [x] = x"
| "joinComma (x # y # ys) = x @ '','' @ joinComma (y # ys)"

definition writeHabits :: "Habit list \<Rightarrow> string" where
  "writeHabits hs = ''['' @ joinComma (map writeHabit hs) @ '']''"

text \<open>
  The reader accepts the layout that \<open>writeHabits\<close> produces: the five keys in this
  order and no white space between tokens. JSON text in another
  layout is outside this reader.
\<close>

definition expect :: "string \<Rightarrow> string \<Rightarrow> string option" where
  "expect lit s = (if take (length lit) s = lit then Some (drop (length lit) s) else None)"

definition hexVal :: "char \<Rightarrow> nat option" where
  "hexVal ch =
     (let n = (of_char ch :: nat)
      in if 48 \<le> n \<and> n \<le> 57 then Some (n - 48)
         else if 97 \<le> n \<and> n \<le> 102 then Some (n - 87)
         else if 65 \<le> n \<and> n \<le> 70 then Some (n - 55)
         else None)"

definition unescapeChar :: "char \<Rightarrow> char option" where
  "unescapeChar e =
     (if e = quoteChar \<or> e = backslash \<or> e = CHR ''/'' then Some e
      else if e = CHR ''b'' then Some (char_of (8::nat))
      else if e = CHR ''t'' then Some (char_of (9::nat))
      else if e = CHR ''n'' then Some (char_of (10::nat))
      else if e = CHR ''f'' then Some (char_of (12::nat))
      else if e = CHR ''r'' then Some (char_of (13::nat))
      else None)"

definition consResult :: "char \<Rightarrow> (string \<times> string) option \<Rightarrow> (string \<times> string) option" where
  "consResult ch r = (case r of None \<Rightarrow> None | Some (s, rest) \<Rightarrow> Some (ch # s, rest))"

fun readChars :: "string \<Rightarrow> (string \<times> string) option" where
  "readChars [] = None"
| "readChars (ch # cs) =
     (if ch = quoteChar then Some ([], cs)
      else if ch = backslash then
        (case cs of
           [] \<Rightarrow> None
         | e # cs1 \<Rightarrow>
             if e = CHR ''u'' then
               (case cs1 of
                  a # b # c # d # cs2 \<Rightarrow>
                    (case (hexVal a, hexVal b, hexVal c, hexVal d) of
                       (Some 0, Some 0, Some x, Some y) \<Rightarrow>
                          consResult (char_of (16 * x + y)) (readChars cs2)
                     | _ \<Rightarrow> None)
                | _ \<Rightarrow> None)
             else (case unescapeChar e of
                     None \<Rightarrow> None
                   | Some u \<Rightarrow> consResult u (readChars cs1)))
      else if (of_char ch :: nat) < 32 then None
      else consResult ch (readChars cs))"

definition readString :: "string \<Rightarrow> (string \<times> string) option" where
  "readString s = (case s of [] \<Rightarrow> None | ch # cs \<Rightarrow> if ch = quoteChar then readChars cs else None)"

definition readInt :: "string \<Rightarrow> (int \<times> string) option" where
  "readInt s =
     (let neg = (take 1 s = ''-'');
          body = (if neg then drop 1 s else s);
          ds = takeWhile isDigit body
      in if length ds > 1 \<and> take 1 ds = ''0'' then None
         else case readNat ds of
                None \<Rightarrow> None
              | Some n \<Rightarrow> Some (if neg then - int n else int n, dropWhile isDigit body))"

definition readNullable :: "string \<Rightarrow> (string option \<times> string) option" where
  "readNullable s =
     (case expect ''null'' s of
        Some rest \<Rightarrow> Some (None, rest)
      | None \<Rightarrow> (case readString s of None \<Rightarrow> None | Some (v, rest) \<Rightarrow> Some (Some v, rest)))"

definition readHabit :: "string \<Rightarrow> (Habit \<times> string) option" where
  "readHabit s =
     Option.bind (expect (''{'' @ writeString ''id'' @ '':'') s) (\<lambda>s.
     Option.bind (readString s) (\<lambda>(i, s).
     Option.bind (expect ('','' @ writeString ''name'' @ '':'') s) (\<lambda>s.
     Option.bind (readString s) (\<lambda>(n, s).
     Option.bind (expect ('','' @ writeString ''streak'' @ '':'') s) (\<lambda>s.
     Option.bind (readInt s) (\<lambda>(k, s).
     Option.bind (expect ('','' @ writeString ''lastCompleted'' @ '':'') s) (\<lambda>s.
     Option.bind (readNullable s) (\<lambda>(l, s).
     Option.bind (expect ('','' @ writeString ''createdAt'' @ '':'') s) (\<lambda>s.
     Option.bind (readString s) (\<lambda>(c, s).
     Option.bind (expect ''}'' s) (\<lambda>s.
       Some (\<lparr>h_id = i, h_name = n, streak = k, lastCompleted = l, createdAt = c\<rparr>, s))))))))))))"

text \<open>
  The elements after the opening bracket. Each element consumes at least one character,
  so the length of the text bounds the number of rounds.
\<close>

fun readMore :: "nat \<Rightarrow> string \<Rightarrow> Habit list option" where
  "readMore 0 s = None"
| "readMore (Suc fuel) s =
     (case readHabit s of
        None \<Rightarrow> None
      | Some (h, rest) \<Rightarrow>
          if rest = '']'' then Some [h]
          else (case expect '','' rest of
                  None \<Rightarrow> None
                | Some rest1 \<Rightarrow> map_option ((#) h) (readMore fuel rest1)))"

definition readHabits :: "string \<Rightarrow> Habit list option" where
  "readHabits s =
     (case expect ''['' s of
        None \<Rightarrow> None
      | Some rest \<Rightarrow> if rest = '']'' then Some [] else readMore (length rest) rest)"

definition utcDevice :: Platform where
  "utcDevice = \<lparr>Date_parse = utcDate, JSON_parse = readHabits, JSON_stringify = writeHabits\<rparr>"

subsection \<open>Sample data\<close>

text \<open>Two readings of the clock on 1 March 2024, a leap year: the day before is 29 February.\<close>

definition morning :: Clock where
  "morning = \<lparr>now = \<lparr>getFullYear = 2024, getMonth = 2, getDate = 1\<rparr>,
              toISOString = ''2024-03-01T08:00:00.000Z'',
              Date_now = ''1709280000000''\<rparr>"

definition evening :: Clock where
  "evening = \<lparr>now = \<lparr>getFullYear = 2024, getMonth = 2, getDate = 1\<rparr>,
              toISOString = ''2024-03-01T21:30:00.000Z'',
              Date_now = ''1709328600000''\<rparr>"

definition hNever :: Habit where
  "hNever = \<lparr>h_id = ''1708500000000'', h_name = ''Read'', streak = 0,
             lastCompleted = None, createdAt = ''2024-02-21T07:20:00.000Z''\<rparr>"

definition hEmpty :: Habit where
  "hEmpty = \<lparr>h_id = ''1708500000001'', h_name = ''Stretch'', streak = 5,
             lastCompleted = Some [], createdAt = ''2024-02-21T07:20:00.001Z''\<rparr>"

definition hOld :: Habit where
  "hOld = \<lparr>h_id = ''1708500000002'', h_name = ''Run'', streak = 5,
           lastCompleted = Some ''2024-02-27T09:00:00.000Z'',
           createdAt = ''2024-02-21T07:20:00.002Z''\<rparr>"

definition hYesterday :: Habit where
  "hYesterday = \<lparr>h_id = ''1708500000003'', h_name = ''Walk'', streak = 3,
                 lastCompleted = Some ''2024-02-29T20:00:00.000Z'',
                 createdAt = ''2024-02-21T07:20:00.003Z''\<rparr>"

definition hToday :: Habit where
  "hToday = \<lparr>h_id = ''1708500000004'', h_name = ''Write'', streak = 4,
             lastCompleted = Some ''2024-03-01T07:00:00.000Z'',
             createdAt = ''2024-02-21T07:20:00.004Z''\<rparr>"

definition startup :: App where
  "startup = \<lparr>screen = Home, habits = [], newHabitName = [], storage = None,
              storageFails = False, console = [], alerts = []\<rparr>"

definition tracking :: App where
  "tracking = startup\<lparr>habits := [hNever, hYesterday, hToday]\<rparr>"

text \<open>The "Add Habit" screen with a text typed into the field.\<close>

definition typing :: "string \<Rightarrow> App" where
  "typing text = startup\<lparr>screen := Add, habits := [hToday], newHabitName := text,
                         storage := Some (writeHabits [hToday])\<rparr>"

text \<open>Stored content that is not JSON, and JSON text cut off in the middle.\<close>

definition corrupted :: App where
  "corrupted = startup\<lparr>storage := Some ''{not json''\<rparr>"

definition truncated :: App where
  "truncated = startup\<lparr>storage := Some (take 40 (writeHabits [hToday]))\<rparr>"

text \<open>A launch of the application over two stored habits.\<close>

definition relaunch :: App where
  "relaunch = startup\<lparr>storage := Some (writeHabits [hOld, hToday])\<rparr>"

text \<open>Two habits whose names differ in case only, and a list whose streaks add up to 68.\<close>

definition twoRuns :: "Habit list" where
  "twoRuns = [hOld, \<lparr>h_id = ''1708500000005'', h_name = ''RUN'', streak = 2,
                    lastCompleted = Some ''2024-03-01T07:30:00.000Z'',
                    createdAt = ''2024-02-21T07:20:00.005Z''\<rparr>]"

definition tied :: "Habit list" where
  "tied = [hToday\<lparr>streak := 60\<rparr>, hYesterday\<lparr>streak := 8\<rparr>]"

section \<open>Properties\<close>

subsection \<open>The lapse reset\<close>

lemma resetHabit_fields:
  "h_id (resetHabit P c h) = h_id h \<and> h_name (resetHabit P c h) = h_name h
   \<and> lastCompleted (resetHabit P c h) = lastCompleted h
   \<and> createdAt (resetHabit P c h) = createdAt h"
  by (simp add: resetHabit_def Let_def)

lemma resetHabit_lapsed:
  "\<not> falsy (lastCompleted h) \<Longrightarrow> \<not> isToday P c (lastCompleted h)
   \<Longrightarrow> \<not> isYesterday P c (lastCompleted h) \<Longrightarrow> streak (resetHabit P c h) = 0"
  by (simp add: resetHabit_def)

lemma resetHabit_unchanged:
  "falsy (lastCompleted h) \<or> isToday P c (lastCompleted h) \<or> isYesterday P c (lastCompleted h)
   \<Longrightarrow> resetHabit P c h = h"
  by (auto simp: resetHabit_def)

lemma resetHabit_idem: "resetHabit P c (resetHabit P c h) = resetHabit P c h"
  by (simp add: resetHabit_def Let_def)

lemma resetStreaksIfNeeded_idem:
  "resetStreaksIfNeeded P c (resetStreaksIfNeeded P c hs) = resetStreaksIfNeeded P c hs"
  by (simp add: resetStreaksIfNeeded_def resetHabit_idem)

text \<open>The reset reads the clock only through the calendar day.\<close>

lemma isToday_same_day: "now c' = now c \<Longrightarrow> isToday P c' d = isToday P c d"
  by (simp add: isToday_def Let_def split: option.split)

lemma isYesterday_same_day: "now c' = now c \<Longrightarrow> isYesterday P c' d = isYesterday P c d"
  by (simp add: isYesterday_def Let_def split: option.split)

lemma resetStreaksIfNeeded_same_day:
  assumes "now c' = now c"
  shows "resetStreaksIfNeeded P c' hs = resetStreaksIfNeeded P c hs"
  unfolding resetStreaksIfNeeded_def resetHabit_def
    isToday_same_day [OF assms] isYesterday_same_day [OF assms] ..

text \<open>
  Claim C1, as amended. \<^verbatim>\<open>resetStreaksIfNeeded\<close> returns a list of the same length, and
  at every position: the fields \<^verbatim>\<open>id\<close>, \<^verbatim>\<open>name\<close>, \<^verbatim>\<open>lastCompleted\<close> and \<^verbatim>\<open>createdAt\<close>
  are those of the input; if \<^verbatim>\<open>lastCompleted\<close> is neither \<^verbatim>\<open>null\<close> nor the empty string
  and is neither today nor yesterday, the streak is 0; a habit whose \<^verbatim>\<open>lastCompleted\<close> is
  \<^verbatim>\<open>null\<close> is returned unchanged, and so is one whose \<^verbatim>\<open>lastCompleted\<close> is the empty
  string, today or yesterday. The function is pure: its argument is not changed.
\<close>

theorem resetStreaksIfNeeded_lapse:
  "length (resetStreaksIfNeeded P c hs) = length hs \<and>
   (\<forall>k < length hs.
      h_id (resetStreaksIfNeeded P c hs ! k) = h_id (hs ! k)
      \<and> h_name (resetStreaksIfNeeded P c hs ! k) = h_name (hs ! k)
      \<and> lastCompleted (resetStreaksIfNeeded P c hs ! k) = lastCompleted (hs ! k)
      \<and> createdAt (resetStreaksIfNeeded P c hs ! k) = createdAt (hs ! k)
      \<and> (lastCompleted (hs ! k) \<noteq> None \<and> lastCompleted (hs ! k) \<noteq> Some []
           \<and> \<not> isToday P c (lastCompleted (hs ! k))
           \<and> \<not> isYesterday P c (lastCompleted (hs ! k))
          \<longrightarrow> streak (resetStreaksIfNeeded P c hs ! k) = 0)
      \<and> (lastCompleted (hs ! k) = None \<longrightarrow> resetStreaksIfNeeded P c hs ! k = hs ! k)
      \<and> (lastCompleted (hs ! k) = Some [] \<or> isToday P c (lastCompleted (hs ! k))
            \<or> isYesterday P c (lastCompleted (hs ! k))
          \<longrightarrow> resetStreaksIfNeeded P c hs ! k = hs ! k))"
  by (simp add: resetStreaksIfNeeded_def resetHabit_fields resetHabit_lapsed
      resetHabit_unchanged falsy_def)

theorem resetStreaksIfNeeded_lapse_witness:
  "(1::nat) < length [hNever, hOld, hYesterday, hToday]
   \<and> lastCompleted hOld \<noteq> None \<and> lastCompleted hOld \<noteq> Some []
   \<and> \<not> isToday utcDevice morning (lastCompleted hOld)
   \<and> \<not> isYesterday utcDevice morning (lastCompleted hOld)
   \<and> streak hOld = 5
   \<and> streak (resetStreaksIfNeeded utcDevice morning [hNever, hOld, hYesterday, hToday] ! 1) = 0
   \<and> lastCompleted (resetStreaksIfNeeded utcDevice morning [hNever, hOld, hYesterday, hToday] ! 1)
       = lastCompleted hOld
   \<and> lastCompleted hNever = None
   \<and> resetStreaksIfNeeded utcDevice morning [hNever, hOld, hYesterday, hToday] ! 0 = hNever
   \<and> isYesterday utcDevice morning (lastCompleted hYesterday)
   \<and> resetStreaksIfNeeded utcDevice morning [hNever, hOld, hYesterday, hToday] ! 2 = hYesterday
   \<and> isToday utcDevice morning (lastCompleted hToday)
   \<and> resetStreaksIfNeeded utcDevice morning [hNever, hOld, hYesterday, hToday] ! 3 = hToday"
proof -
  let ?hs = "[hNever, hOld, hYesterday, hToday]"
  note spec = resetStreaksIfNeeded_lapse [of utcDevice morning ?hs]
  have old: "lastCompleted hOld \<noteq> None \<and> lastCompleted hOld \<noteq> Some []
     \<and> \<not> isToday utcDevice morning (lastCompleted hOld)
     \<and> \<not> isYesterday utcDevice morning (lastCompleted hOld) \<and> streak hOld = 5"
    by code_simp
  have y: "isYesterday utcDevice morning (lastCompleted hYesterday)" by code_simp
  have t: "isToday utcDevice morning (lastCompleted hToday)" by code_simp
  have n: "lastCompleted hNever = None" by code_simp
  from spec n have k0: "resetStreaksIfNeeded utcDevice morning ?hs ! 0 = hNever"
    by simp
  from spec y have k2: "resetStreaksIfNeeded utcDevice morning ?hs ! 2 = hYesterday"
    by simp
  from spec t have k3: "resetStreaksIfNeeded utcDevice morning ?hs ! 3 = hToday"
    by simp
  from spec old have k1: "streak (resetStreaksIfNeeded utcDevice morning ?hs ! 1) = 0
      \<and> lastCompleted (resetStreaksIfNeeded utcDevice morning ?hs ! 1) = lastCompleted hOld"
    by simp
  from old y t n k0 k1 k2 k3 show ?thesis by simp
qed

text \<open>
  Claim C1 as stated asks for streak 0 whenever \<^verbatim>\<open>lastCompleted\<close> is non-null and neither
  today nor yesterday. The guard \<^verbatim>\<open>if (!habit.lastCompleted) return habit\<close> also lets the
  empty string through: such a habit keeps its streak.
\<close>

theorem C1_counterexample:
  "resetStreaksIfNeeded utcDevice morning [hEmpty] = [hEmpty]
   \<and> lastCompleted hEmpty \<noteq> None
   \<and> \<not> isToday utcDevice morning (lastCompleted hEmpty)
   \<and> \<not> isYesterday utcDevice morning (lastCompleted hEmpty)
   \<and> streak hEmpty = 5"
  by (simp add: resetStreaksIfNeeded_def resetHabit_def isToday_def isYesterday_def
      falsy_def hEmpty_def)

subsection \<open>Toggling a habit\<close>

text \<open>
  \<^verbatim>\<open>saveHabits\<close> catches what the storage throws, so it always returns a state, and
  \<^verbatim>\<open>toggleHabit\<close> replaces the list by the image of the callback \<open>toggleOne\<close>.
\<close>

lemma isToday_None: "\<not> isToday P c None"
  by (simp add: isToday_def falsy_def)

lemma saveHabits_returns:
  "saveHabits P hs st =
     Inr (if storageFails st then console_error ''Save habits error:'' StorageError st
          else st\<lparr>storage := Some (JSON_stringify P hs)\<rparr>)"
  by (simp add: saveHabits_def try_catch_def setItem_def)

lemma habits_console_error: "habits (console_error msg e st) = habits st"
  by (simp add: console_error_def)

lemma toggleHabit_returns:
  "\<exists>st'. toggleHabit P c i st = Inr st' \<and> habits st' = map (toggleOne P c i) (habits st)"
  by (simp add: toggleHabit_def Let_def saveHabits_returns habits_console_error)

lemma toggleOne_other: "h_id h \<noteq> i \<Longrightarrow> toggleOne P c i h = h"
  by (simp add: toggleOne_def)

lemma toggleOne_id: "h_id (toggleOne P c i h) = h_id h"
  by (simp add: toggleOne_def Let_def)

lemma toggleOne_nonneg: "0 \<le> streak h \<Longrightarrow> 0 \<le> streak (toggleOne P c i h)"
  by (simp add: toggleOne_def Let_def)

lemma toggleOne_undo_nonneg:
  "h_id h = i \<Longrightarrow> isToday P c (lastCompleted h) \<Longrightarrow> 0 \<le> streak (toggleOne P c i h)"
  by (simp add: toggleOne_def Let_def)

text \<open>
  Claim C2, as amended. Let a habit with streak \<open>\<ge> 0\<close> be toggled twice on one calendar
  day, so that the second toggle reads the timestamp written by the first as today.
  If the habit was not completed today, the streak returns to its value and
  \<^verbatim>\<open>lastCompleted\<close> ends as \<^verbatim>\<open>null\<close>; both fields return to their values when
  \<^verbatim>\<open>lastCompleted\<close> was \<^verbatim>\<open>null\<close>. If the habit was completed today and its streak is
  \<open>\<ge> 1\<close>, the streak returns to its value and \<^verbatim>\<open>lastCompleted\<close> ends as the time of the
  second toggle.
\<close>

theorem toggle_twice_same_day:
  assumes "h_id h = i" and "0 \<le> streak h" and "isToday P c2 (Some (toISOString c1))"
  shows "(\<not> isToday P c1 (lastCompleted h) \<longrightarrow>
            toggleOne P c2 i (toggleOne P c1 i h) = h\<lparr>lastCompleted := None\<rparr>)
       \<and> (lastCompleted h = None \<longrightarrow> toggleOne P c2 i (toggleOne P c1 i h) = h)
       \<and> (isToday P c1 (lastCompleted h) \<and> 1 \<le> streak h \<longrightarrow>
            toggleOne P c2 i (toggleOne P c1 i h) = h\<lparr>lastCompleted := Some (toISOString c2)\<rparr>)"
  using assms by (simp add: toggleOne_def Let_def isToday_None)

theorem toggle_twice_same_day_witness:
  "h_id hNever = ''1708500000000'' \<and> 0 \<le> streak hNever
   \<and> isToday utcDevice evening (Some (toISOString morning))
   \<and> \<not> isToday utcDevice morning (lastCompleted hNever)
   \<and> lastCompleted hNever = None
   \<and> toggleOne utcDevice morning ''1708500000000'' hNever
       = hNever\<lparr>streak := 1, lastCompleted := Some ''2024-03-01T08:00:00.000Z''\<rparr>
   \<and> toggleOne utcDevice evening ''1708500000000''
        (toggleOne utcDevice morning ''1708500000000'' hNever) = hNever
   \<and> h_id hToday = ''1708500000004'' \<and> 0 \<le> streak hToday
   \<and> isToday utcDevice morning (lastCompleted hToday) \<and> 1 \<le> streak hToday
   \<and> toggleOne utcDevice evening ''1708500000004''
        (toggleOne utcDevice morning ''1708500000004'' hToday)
       = hToday\<lparr>lastCompleted := Some ''2024-03-01T21:30:00.000Z''\<rparr>"
proof -
  have a: "h_id hNever = ''1708500000000''" "0 \<le> streak hNever"
    "isToday utcDevice evening (Some (toISOString morning))"
    by code_simp+
  have b: "\<not> isToday utcDevice morning (lastCompleted hNever)" "lastCompleted hNever = None"
    by code_simp+
  have first: "toggleOne utcDevice morning ''1708500000000'' hNever
       = hNever\<lparr>streak := 1, lastCompleted := Some ''2024-03-01T08:00:00.000Z''\<rparr>"
    by code_simp
  have c: "h_id hToday = ''1708500000004''" "0 \<le> streak hToday"
    "isToday utcDevice morning (lastCompleted hToday)" "1 \<le> streak hToday"
    "toISOString evening = ''2024-03-01T21:30:00.000Z''"
    by code_simp+
  from toggle_twice_same_day [OF a] b
  have never: "toggleOne utcDevice evening ''1708500000000''
        (toggleOne utcDevice morning ''1708500000000'' hNever) = hNever"
    by blast
  from toggle_twice_same_day [OF c(1) c(2) a(3)] c
  have today: "toggleOne utcDevice evening ''1708500000004''
        (toggleOne utcDevice morning ''1708500000004'' hToday)
       = hToday\<lparr>lastCompleted := Some ''2024-03-01T21:30:00.000Z''\<rparr>"
    by simp
  from a b first c never today show ?thesis by simp
qed

text \<open>
  Claim C2 as stated covers every habit. On 1 March, a habit last completed on
  29 February ends the two toggles with \<^verbatim>\<open>lastCompleted\<close> cleared, and a habit completed
  today with streak 0 ends them with streak 1.
\<close>

theorem C2_counterexample:
  "now morning = now evening
   \<and> lastCompleted hYesterday = Some ''2024-02-29T20:00:00.000Z''
   \<and> toggleOne utcDevice evening (h_id hYesterday)
        (toggleOne utcDevice morning (h_id hYesterday) hYesterday)
       = hYesterday\<lparr>lastCompleted := None\<rparr>
   \<and> streak (hToday\<lparr>streak := 0\<rparr>) = 0
   \<and> streak (toggleOne utcDevice evening (h_id hToday)
        (toggleOne utcDevice morning (h_id hToday) (hToday\<lparr>streak := 0\<rparr>))) = 1"
  by code_simp

text \<open>
  Claim C3. A toggle of a habit with streak \<open>\<ge> 0\<close> yields a streak \<open>\<ge> 0\<close>; the undo branch
  yields a streak \<open>\<ge> 0\<close> whatever the streak was; and if every habit of the list has a
  streak \<open>\<ge> 0\<close>, \<^verbatim>\<open>toggleHabit\<close> returns a list with the same property.
\<close>

theorem toggleHabit_streak_nonneg:
  "(0 \<le> streak h \<longrightarrow> 0 \<le> streak (toggleOne P c i h))
   \<and> (h_id h = i \<and> isToday P c (lastCompleted h) \<longrightarrow> 0 \<le> streak (toggleOne P c i h))
   \<and> ((\<forall>h \<in> set (habits st). 0 \<le> streak h) \<longrightarrow>
        (\<exists>st'. toggleHabit P c i st = Inr st' \<and> (\<forall>h \<in> set (habits st'). 0 \<le> streak h)))"
proof (intro conjI impI)
  assume "\<forall>h \<in> set (habits st). 0 \<le> streak h"
  moreover obtain st' where st': "toggleHabit P c i st = Inr st'"
    "habits st' = map (toggleOne P c i) (habits st)"
    using toggleHabit_returns by blast
  ultimately have "\<forall>h \<in> set (habits st'). 0 \<le> streak h"
    by (auto simp: toggleOne_nonneg)
  with st' show "\<exists>st'. toggleHabit P c i st = Inr st' \<and> (\<forall>h \<in> set (habits st'). 0 \<le> streak h)"
    by blast
qed (simp_all add: toggleOne_nonneg toggleOne_undo_nonneg)

theorem toggleHabit_streak_nonneg_witness:
  "0 \<le> streak (hToday\<lparr>streak := 0\<rparr>)
   \<and> h_id (hToday\<lparr>streak := 0\<rparr>) = h_id hToday
   \<and> isToday utcDevice morning (lastCompleted (hToday\<lparr>streak := 0\<rparr>))
   \<and> streak (toggleOne utcDevice morning (h_id hToday) (hToday\<lparr>streak := 0\<rparr>)) = 0
   \<and> list_all (\<lambda>h. 0 \<le> streak h) (habits tracking)
   \<and> (\<exists>st'. toggleHabit utcDevice morning (h_id hToday) tracking = Inr st'
          \<and> (\<forall>h \<in> set (habits st'). 0 \<le> streak h)
          \<and> map streak (habits st') = [0, 3, 3])"
proof -
  note spec = toggleHabit_streak_nonneg
    [of "hToday\<lparr>streak := 0\<rparr>" utcDevice morning "h_id hToday" tracking]
  have hyp1: "0 \<le> streak (hToday\<lparr>streak := 0\<rparr>)
     \<and> h_id (hToday\<lparr>streak := 0\<rparr>) = h_id hToday
     \<and> isToday utcDevice morning (lastCompleted (hToday\<lparr>streak := 0\<rparr>))"
    by code_simp
  have hyp2: "\<forall>h \<in> set (habits tracking). 0 \<le> streak h"
    by code_simp
  have run: "streak (toggleOne utcDevice morning (h_id hToday) (hToday\<lparr>streak := 0\<rparr>)) = 0"
    by code_simp
  have run2: "map streak (map (toggleOne utcDevice morning (h_id hToday)) (habits tracking)) = [0, 3, 3]"
    by code_simp
  from spec hyp2 obtain st' where st': "toggleHabit utcDevice morning (h_id hToday) tracking = Inr st'"
    "\<forall>h \<in> set (habits st'). 0 \<le> streak h"
    by blast
  moreover have "habits st' = map (toggleOne utcDevice morning (h_id hToday)) (habits tracking)"
    using st'(1) toggleHabit_returns [of utcDevice morning "h_id hToday" tracking] by simp
  ultimately show ?thesis using hyp1 hyp2 run run2 by (auto simp: list_all_iff)
qed

text \<open>
  Claim C10. \<^verbatim>\<open>toggleHabit(id)\<close> returns normally; the list keeps its length, every
  position keeps its identifier, and a habit whose identifier differs from \<open>id\<close> is
  unchanged at its position. When no habit has the identifier, the list is the input.
\<close>

theorem toggleHabit_frame:
  "\<exists>st'. toggleHabit P c i st = Inr st'
     \<and> length (habits st') = length (habits st)
     \<and> (\<forall>k < length (habits st).
           h_id (habits st' ! k) = h_id (habits st ! k)
           \<and> (h_id (habits st ! k) \<noteq> i \<longrightarrow> habits st' ! k = habits st ! k))
     \<and> ((\<forall>h \<in> set (habits st). h_id h \<noteq> i) \<longrightarrow> habits st' = habits st)"
proof -
  obtain st' where st': "toggleHabit P c i st = Inr st'"
    "habits st' = map (toggleOne P c i) (habits st)"
    using toggleHabit_returns by blast
  have "(\<forall>h \<in> set (habits st). h_id h \<noteq> i) \<longrightarrow> map (toggleOne P c i) (habits st) = habits st"
    by (simp add: toggleOne_other map_idI)
  with st' show ?thesis
    by (auto simp: toggleOne_id toggleOne_other)
qed

theorem toggleHabit_frame_witness:
  "list_all (\<lambda>h. h_id h \<noteq> ''1708500000009'') (habits tracking)
   \<and> (\<exists>st'. toggleHabit utcDevice morning ''1708500000009'' tracking = Inr st'
          \<and> habits st' = habits tracking)
   \<and> (1::nat) < length (habits tracking)
   \<and> h_id (habits tracking ! 1) \<noteq> h_id hToday
   \<and> (\<exists>st'. toggleHabit utcDevice morning (h_id hToday) tracking = Inr st'
          \<and> length (habits st') = 3
          \<and> habits st' ! 1 = habits tracking ! 1)"
proof -
  have hyp: "\<forall>h \<in> set (habits tracking). h_id h \<noteq> ''1708500000009''" by code_simp
  have len: "length (habits tracking) = 3" by code_simp
  have other: "h_id (habits tracking ! 1) \<noteq> h_id hToday" by code_simp
  from toggleHabit_frame [of utcDevice morning "''1708500000009''" tracking] hyp
  have a: "\<exists>st'. toggleHabit utcDevice morning ''1708500000009'' tracking = Inr st'
          \<and> habits st' = habits tracking"
    by blast
  from toggleHabit_frame [of utcDevice morning "h_id hToday" tracking] len other
  have b: "\<exists>st'. toggleHabit utcDevice morning (h_id hToday) tracking = Inr st'
          \<and> length (habits st') = 3 \<and> habits st' ! 1 = habits tracking ! 1"
    by auto
  from hyp len other a b show ?thesis by (simp add: list_all_iff)
qed

subsection \<open>Adding and deleting\<close>

lemma trim_Nil_iff: "trim s = [] \<longleftrightarrow> (\<forall>ch \<in> set s. isWhiteSpace ch)"
proof
  assume "trim s = []"
  then have all: "\<forall>ch \<in> set (dropWhile isWhiteSpace s). isWhiteSpace ch"
    by (simp add: trim_def dropWhile_eq_Nil_conv)
  have "dropWhile isWhiteSpace s = []"
  proof (rule ccontr)
    assume ne: "dropWhile isWhiteSpace s \<noteq> []"
    then have "\<not> isWhiteSpace (hd (dropWhile isWhiteSpace s))"
      by (rule hd_dropWhile)
    moreover have "hd (dropWhile isWhiteSpace s) \<in> set (dropWhile isWhiteSpace s)"
      using ne by simp
    ultimately show False using all by blast
  qed
  then show "\<forall>ch \<in> set s. isWhiteSpace ch"
    by (simp add: dropWhile_eq_Nil_conv)
next
  assume "\<forall>ch \<in> set s. isWhiteSpace ch"
  then have e: "dropWhile isWhiteSpace s = []"
    by (simp add: dropWhile_eq_Nil_conv)
  show "trim s = []"
    unfolding trim_def e by simp
qed

text \<open>
  Claim C8. When the typed name is empty or consists of white space only, \<^verbatim>\<open>addHabit\<close>
  opens the alert "Please enter a habit name" and changes nothing else: the habit list
  and the stored item are those of the input. For every other name one habit is appended,
  with streak 0, \<^verbatim>\<open>lastCompleted\<close> \<^verbatim>\<open>null\<close> and the trimmed name, and no alert is opened.
\<close>

theorem addHabit_validation:
  "((\<forall>ch \<in> set (newHabitName st). isWhiteSpace ch) \<longrightarrow>
      (\<exists>st'. addHabit P c st = Inr st'
         \<and> st' = st\<lparr>alerts := alerts st @ [(''Error'', ''Please enter a habit name'')]\<rparr>
         \<and> habits st' = habits st \<and> storage st' = storage st))
   \<and> (\<not> (\<forall>ch \<in> set (newHabitName st). isWhiteSpace ch) \<longrightarrow>
      (\<exists>st' h. addHabit P c st = Inr st' \<and> habits st' = habits st @ [h]
         \<and> streak h = 0 \<and> lastCompleted h = None \<and> h_name h = trim (newHabitName st)
         \<and> alerts st' = alerts st))"
  by (simp add: trim_Nil_iff [symmetric] addHabit_def Alert_alert_def Let_def
      saveHabits_returns console_error_def)

theorem addHabit_validation_witness:
  "list_all isWhiteSpace (newHabitName (typing [CHR '' '', CHR 0x09, CHR 0xA0]))
   \<and> addHabit utcDevice morning (typing [CHR '' '', CHR 0x09, CHR 0xA0])
       = Inr ((typing [CHR '' '', CHR 0x09, CHR 0xA0])
               \<lparr>alerts := [(''Error'', ''Please enter a habit name'')]\<rparr>)
   \<and> \<not> list_all isWhiteSpace (newHabitName (typing ''  Floss ''))
   \<and> (\<exists>st'. addHabit utcDevice morning (typing ''  Floss '') = Inr st'
         \<and> habits st' = [hToday, \<lparr>h_id = ''1709280000000'', h_name = ''Floss'', streak = 0,
                lastCompleted = None, createdAt = ''2024-03-01T08:00:00.000Z''\<rparr>])"
proof -
  let ?blank = "typing [CHR '' '', CHR 0x09, CHR 0xA0]"
  let ?floss = "typing ''  Floss ''"
  have blank: "\<forall>ch \<in> set (newHabitName ?blank). isWhiteSpace ch" by code_simp
  have al: "alerts ?blank = []" by code_simp
  have floss: "\<not> (\<forall>ch \<in> set (newHabitName ?floss). isWhiteSpace ch)" by code_simp
  have run: "(case addHabit utcDevice morning ?floss of Inl e \<Rightarrow> [] | Inr s \<Rightarrow> habits s)
       = [hToday, \<lparr>h_id = ''1709280000000'', h_name = ''Floss'', streak = 0,
                lastCompleted = None, createdAt = ''2024-03-01T08:00:00.000Z''\<rparr>]"
    by code_simp
  from addHabit_validation [of ?blank utcDevice morning] blank al
  have r1: "addHabit utcDevice morning ?blank
       = Inr (?blank\<lparr>alerts := [(''Error'', ''Please enter a habit name'')]\<rparr>)"
    by auto
  from addHabit_validation [of ?floss utcDevice morning] floss
  obtain st' h where st': "addHabit utcDevice morning ?floss = Inr st'"
    "habits st' = habits ?floss @ [h]"
    by blast
  from run st'(1) have "habits st' = [hToday, \<lparr>h_id = ''1709280000000'', h_name = ''Floss'',
                streak = 0, lastCompleted = None, createdAt = ''2024-03-01T08:00:00.000Z''\<rparr>]"
    by simp
  with st'(1) blank floss r1 show ?thesis by (simp add: list_all_iff)
qed

text \<open>
  Claim C9. Confirming the deletion leaves exactly the habits whose identifier differs
  from the given one, in their order, and returns normally; nothing is logged unless the
  storage fails. Cancelling changes neither the list nor the stored item. When no habit
  has the identifier, the list is unchanged whichever button is pressed.
\<close>

theorem deleteHabit_filter:
  "(\<exists>st'. deleteHabit P i Delete st = Inr st'
       \<and> habits st' = filter (\<lambda>h. h_id h \<noteq> i) (habits st)
       \<and> (\<not> storageFails st \<longrightarrow> console st' = console st))
   \<and> (\<exists>st'. deleteHabit P i Cancel st = Inr st' \<and> habits st' = habits st
       \<and> storage st' = storage st \<and> console st' = console st)
   \<and> ((\<forall>h \<in> set (habits st). h_id h \<noteq> i) \<longrightarrow>
        (\<exists>st'. deleteHabit P i pressed st = Inr st' \<and> habits st' = habits st
           \<and> (\<not> storageFails st \<longrightarrow> console st' = console st)))"
proof -
  have "(\<forall>h \<in> set (habits st). h_id h \<noteq> i) \<longrightarrow> filter (\<lambda>h. h_id h \<noteq> i) (habits st) = habits st"
    by simp
  then show ?thesis
    by (cases pressed) (simp_all add: deleteHabit_def Alert_alert_def Let_def saveHabits_returns
          console_error_def)
qed

theorem deleteHabit_filter_witness:
  "list_all (\<lambda>h. h_id h \<noteq> ''1708500000009'') (habits tracking)
   \<and> \<not> storageFails tracking
   \<and> (\<exists>st'. deleteHabit utcDevice ''1708500000009'' Delete tracking = Inr st'
          \<and> habits st' = [hNever, hYesterday, hToday] \<and> console st' = [])
   \<and> (\<exists>st'. deleteHabit utcDevice (h_id hYesterday) Delete tracking = Inr st'
          \<and> habits st' = [hNever, hToday])"
proof -
  have hyp: "\<forall>h \<in> set (habits tracking). h_id h \<noteq> ''1708500000009''"
    "\<not> storageFails tracking"
    by code_simp+
  have data: "habits tracking = [hNever, hYesterday, hToday]" "console tracking = []"
    "filter (\<lambda>h. h_id h \<noteq> h_id hYesterday) (habits tracking) = [hNever, hToday]"
    by code_simp+
  from deleteHabit_filter [of utcDevice "''1708500000009''" tracking Delete] hyp data
  have a: "\<exists>st'. deleteHabit utcDevice ''1708500000009'' Delete tracking = Inr st'
          \<and> habits st' = [hNever, hYesterday, hToday] \<and> console st' = []"
    by auto
  from deleteHabit_filter [of utcDevice "h_id hYesterday" tracking Delete] data
  have b: "\<exists>st'. deleteHabit utcDevice (h_id hYesterday) Delete tracking = Inr st'
          \<and> habits st' = [hNever, hToday]"
    by auto
  from hyp a b show ?thesis by (simp add: list_all_iff)
qed

subsection \<open>The JSON text of the concrete device reads back\<close>

text \<open>
  Numbers, strings and whole lists written by \<open>writeHabits\<close> are read back by
  \<open>readHabits\<close>, whatever follows them in the text; so the concrete device has the round
  trip that \<^verbatim>\<open>JSON.stringify\<close> and \<^verbatim>\<open>JSON.parse\<close> have on habit lists.
\<close>

lemma isDigit_digit: "d < 10 \<Longrightarrow> isDigit (char_of (48 + (d::nat)))"
  by (simp add: isDigit_def)

lemma digitVal_digit: "d < 10 \<Longrightarrow> digitVal (char_of (48 + (d::nat))) = d"
  by (simp add: digitVal_def)

lemma writeNat_digits: "list_all isDigit (writeNat n)"
proof (induction n rule: writeNat.induct)
  case (1 n)
  show ?case
  proof (cases "n < 10")
    case True
    then show ?thesis by (subst writeNat.simps) (simp add: isDigit_digit)
  next
    case False
    with 1 show ?thesis by (subst writeNat.simps) (simp add: isDigit_digit)
  qed
qed

lemma writeNat_nonempty: "writeNat n \<noteq> []"
  by (subst writeNat.simps) simp

lemma foldl_digits_append:
  "foldl (\<lambda>n ch. 10 * n + digitVal ch) a (xs @ [x]) =
     10 * foldl (\<lambda>n ch. 10 * n + digitVal ch) a xs + digitVal x"
  by simp

lemma writeNat_value: "foldl (\<lambda>n ch. 10 * n + digitVal ch) 0 (writeNat n) = n"
proof (induction n rule: writeNat.induct)
  case (1 n)
  show ?case
  proof (cases "n < 10")
    case True
    then show ?thesis by (subst writeNat.simps) (simp add: digitVal_digit)
  next
    case False
    with 1 show ?thesis by (subst writeNat.simps) (simp add: digitVal_digit)
  qed
qed

lemma readNat_writeNat: "readNat (writeNat n) = Some n"
  by (simp add: readNat_def writeNat_digits writeNat_nonempty writeNat_value)

lemma hd_writeNat: "hd (writeNat n) = CHR ''0'' \<Longrightarrow> n < 10"
proof (induction n rule: writeNat.induct)
  case (1 n)
  show ?case
  proof (rule ccontr)
    assume big: "\<not> n < 10"
    then have "writeNat n = writeNat (n div 10) @ [char_of (48 + n mod 10)]"
      by (subst writeNat.simps) simp
    with "1.prems" have "hd (writeNat (n div 10)) = CHR ''0''"
      by (simp add: hd_append writeNat_nonempty)
    with 1 big have "n div 10 < 10" by simp
    then have "writeNat (n div 10) = [char_of (48 + n div 10)]"
      by (subst writeNat.simps) simp
    with \<open>hd (writeNat (n div 10)) = CHR ''0''\<close> have "char_of (48 + n div 10) = CHR ''0''"
      by simp
    then have "(of_char (char_of (48 + n div 10) :: char) :: nat) = of_char (CHR ''0'')"
      by simp
    with \<open>n div 10 < 10\<close> have "n div 10 = 0" by simp
    with big show False by simp
  qed
qed

lemma writeNat_single: "n < 10 \<Longrightarrow> writeNat n = [char_of (48 + n)]"
  by (subst writeNat.simps) simp

lemma writeNat_no_leading_zero:
  "\<not> (1 < length (writeNat n) \<and> take 1 (writeNat n) = ''0'')"
proof
  assume a: "1 < length (writeNat n) \<and> take 1 (writeNat n) = ''0''"
  then have "hd (writeNat n) = CHR ''0''"
    by (cases "writeNat n") auto
  then have "n < 10" by (rule hd_writeNat)
  then have "length (writeNat n) = 1" by (simp add: writeNat_single)
  with a show False by simp
qed

lemma writeNat_not_minus: "take 1 (writeNat n) \<noteq> ''-''"
proof
  assume "take 1 (writeNat n) = ''-''"
  then have "hd (writeNat n) = CHR ''-''"
    by (cases "writeNat n") auto
  moreover have "isDigit (hd (writeNat n))"
    using writeNat_digits [of n] writeNat_nonempty [of n]
    by (cases "writeNat n") auto
  ultimately show False by (simp add: isDigit_def)
qed

lemma takeWhile_digits:
  "list_all isDigit ds \<Longrightarrow> (rest = [] \<or> \<not> isDigit (hd rest)) \<Longrightarrow>
   takeWhile isDigit (ds @ rest) = ds \<and> dropWhile isDigit (ds @ rest) = rest"
proof (induction ds)
  case Nil
  then show ?case by (cases rest) auto
next
  case (Cons d ds)
  then show ?case by simp
qed

lemma readInt_writeInt:
  assumes "rest = [] \<or> \<not> isDigit (hd rest)"
  shows "readInt (writeInt i @ rest) = Some (i, rest)"
proof (cases "i < 0")
  case True
  let ?n = "nat (- i)"
  have w: "writeInt i = CHR ''-'' # writeNat ?n" using True by (simp add: writeInt_def)
  have tw: "takeWhile isDigit (writeNat ?n @ rest) = writeNat ?n"
    "dropWhile isDigit (writeNat ?n @ rest) = rest"
    using takeWhile_digits [OF writeNat_digits assms] by simp_all
  show ?thesis
    using True writeNat_no_leading_zero [of ?n]
    by (simp add: readInt_def w tw readNat_writeNat Let_def)
next
  case False
  let ?n = "nat i"
  have w: "writeInt i = writeNat ?n" using False by (simp add: writeInt_def)
  have nm: "take 1 (writeNat ?n @ rest) \<noteq> ''-''"
    using writeNat_not_minus [of ?n] writeNat_nonempty [of ?n]
    by (cases "writeNat ?n") auto
  have tw: "takeWhile isDigit (writeNat ?n @ rest) = writeNat ?n"
    "dropWhile isDigit (writeNat ?n @ rest) = rest"
    using takeWhile_digits [OF writeNat_digits assms] by simp_all
  show ?thesis
    using False writeNat_no_leading_zero [of ?n] nm
    by (simp add: readInt_def w tw readNat_writeNat Let_def)
qed

lemma char_of_nat_eq: "(of_char c :: nat) = n \<Longrightarrow> c = char_of n"
  by (metis char_of_char)

lemma hexVal_hexDigit: "k < 16 \<Longrightarrow> hexVal (hexDigit k) = Some k"
  by (auto simp: hexVal_def hexDigit_def Let_def)

lemma hexVal_zero: "hexVal CHR ''0'' = Some 0"
  by (simp add: hexVal_def)

lemma consResult_Some: "consResult c (Some (s, rest)) = Some (c # s, rest)"
  by (simp add: consResult_def)

lemma readChars_plain:
  "c \<noteq> quoteChar \<Longrightarrow> c \<noteq> backslash \<Longrightarrow> \<not> (of_char c :: nat) < 32 \<Longrightarrow>
   readChars (c # tail) = consResult c (readChars tail)"
  by simp

lemma readChars_short:
  "unescapeChar e = Some c \<Longrightarrow> e \<noteq> CHR ''u'' \<Longrightarrow>
   readChars (backslash # e # tail) = consResult c (readChars tail)"
  by (simp add: backslash_def quoteChar_def)

lemma readChars_hex:
  "x < 16 \<Longrightarrow> y < 16 \<Longrightarrow>
   readChars (backslash # CHR ''u'' # CHR ''0'' # CHR ''0'' # hexDigit x # hexDigit y # tail) =
     consResult (char_of (16 * x + y)) (readChars tail)"
  by (simp add: backslash_def quoteChar_def hexVal_zero hexVal_hexDigit)

lemma readChars_escapeChar:
  "readChars (escapeChar c @ tail) = consResult c (readChars tail)"
proof -
  let ?n = "of_char c :: nat"
  consider (q) "c = quoteChar" | (b) "c \<noteq> quoteChar" "c = backslash"
    | (n8) "c \<noteq> quoteChar" "c \<noteq> backslash" "?n = 8"
    | (n9) "c \<noteq> quoteChar" "c \<noteq> backslash" "?n = 9"
    | (n10) "c \<noteq> quoteChar" "c \<noteq> backslash" "?n = 10"
    | (n12) "c \<noteq> quoteChar" "c \<noteq> backslash" "?n = 12"
    | (n13) "c \<noteq> quoteChar" "c \<noteq> backslash" "?n = 13"
    | (ctl) "c \<noteq> quoteChar" "c \<noteq> backslash" "?n \<noteq> 8" "?n \<noteq> 9" "?n \<noteq> 10"
            "?n \<noteq> 12" "?n \<noteq> 13" "?n < 32"
    | (plain) "c \<noteq> quoteChar" "c \<noteq> backslash" "\<not> ?n < 32"
    by linarith
  then show ?thesis
  proof cases
    case q
    have "unescapeChar quoteChar = Some quoteChar" by (simp add: unescapeChar_def)
    moreover have "quoteChar \<noteq> CHR ''u''" by (simp add: quoteChar_def)
    ultimately have "readChars (backslash # quoteChar # tail) = consResult quoteChar (readChars tail)"
      by (rule readChars_short)
    with q show ?thesis by (simp add: escapeChar_def)
  next
    case b
    have "unescapeChar backslash = Some backslash" by (simp add: unescapeChar_def)
    moreover have "backslash \<noteq> CHR ''u''" by (simp add: backslash_def)
    ultimately have "readChars (backslash # backslash # tail) = consResult backslash (readChars tail)"
      by (rule readChars_short)
    with b show ?thesis by (simp add: escapeChar_def)
  next
    case n8
    then have c: "c = char_of (8::nat)" by (simp add: char_of_nat_eq)
    have "unescapeChar CHR ''b'' = Some c"
      by (simp add: unescapeChar_def quoteChar_def backslash_def c)
    then have "readChars (backslash # CHR ''b'' # tail) = consResult c (readChars tail)"
      by (rule readChars_short) simp
    with n8 show ?thesis by (simp add: escapeChar_def)
  next
    case n9
    then have c: "c = char_of (9::nat)" by (simp add: char_of_nat_eq)
    have "unescapeChar CHR ''t'' = Some c"
      by (simp add: unescapeChar_def quoteChar_def backslash_def c)
    then have "readChars (backslash # CHR ''t'' # tail) = consResult c (readChars tail)"
      by (rule readChars_short) simp
    with n9 show ?thesis by (simp add: escapeChar_def)
  next
    case n10
    then have c: "c = char_of (10::nat)" by (simp add: char_of_nat_eq)
    have "unescapeChar CHR ''n'' = Some c"
      by (simp add: unescapeChar_def quoteChar_def backslash_def c)
    then have "readChars (backslash # CHR ''n'' # tail) = consResult c (readChars tail)"
      by (rule readChars_short) simp
    with n10 show ?thesis by (simp add: escapeChar_def)
  next
    case n12
    then have c: "c = char_of (12::nat)" by (simp add: char_of_nat_eq)
    have "unescapeChar CHR ''f'' = Some c"
      by (simp add: unescapeChar_def quoteChar_def backslash_def c)
    then have "readChars (backslash # CHR ''f'' # tail) = consResult c (readChars tail)"
      by (rule readChars_short) simp
    with n12 show ?thesis by (simp add: escapeChar_def)
  next
    case n13
    then have c: "c = char_of (13::nat)" by (simp add: char_of_nat_eq)
    have "unescapeChar CHR ''r'' = Some c"
      by (simp add: unescapeChar_def quoteChar_def backslash_def c)
    then have "readChars (backslash # CHR ''r'' # tail) = consResult c (readChars tail)"
      by (rule readChars_short) simp
    with n13 show ?thesis by (simp add: escapeChar_def)
  next
    case ctl
    have "?n div 16 < 16" "?n mod 16 < 16" using ctl by simp_all
    then have "readChars (backslash # CHR ''u'' # CHR ''0'' # CHR ''0'' #
                 hexDigit (?n div 16) # hexDigit (?n mod 16) # tail) =
               consResult (char_of (16 * (?n div 16) + ?n mod 16)) (readChars tail)"
      by (rule readChars_hex)
    moreover have "char_of (16 * (?n div 16) + ?n mod 16) = c"
      by simp
    moreover have "escapeChar c = [backslash, CHR ''u'', CHR ''0'', CHR ''0'',
                      hexDigit (?n div 16), hexDigit (?n mod 16)]"
      using ctl by (simp add: escapeChar_def Let_def)
    ultimately show ?thesis by (simp only: append_Cons append_Nil)
  next
    case plain
    then have "readChars (c # tail) = consResult c (readChars tail)"
      by (rule readChars_plain)
    moreover have "escapeChar c = [c]"
      using plain by (auto simp: escapeChar_def Let_def)
    ultimately show ?thesis by simp
  qed
qed

lemma readChars_escaped:
  "readChars (concat (map escapeChar s) @ quoteChar # rest) = Some (s, rest)"
  by (induction s) (simp_all add: readChars_escapeChar consResult_Some)

lemma readString_writeString: "readString (writeString s @ rest) = Some (s, rest)"
  by (simp add: readString_def writeString_def readChars_escaped)

lemma expect_append: "expect lit (lit @ rest) = Some rest"
  by (simp add: expect_def)

lemma expect_null_writeString: "expect ''null'' (writeString s @ rest) = None"
  by (simp add: expect_def writeString_def quoteChar_def)

lemma readNullable_write:
  "readNullable ((case l of None \<Rightarrow> ''null'' | Some s \<Rightarrow> writeString s) @ rest) = Some (l, rest)"
proof (cases l)
  case None
  have "expect ''null'' (''null'' @ rest) = Some rest" by (rule expect_append)
  with None show ?thesis by (simp add: readNullable_def)
next
  case (Some s)
  then show ?thesis
    by (simp add: readNullable_def expect_null_writeString readString_writeString)
qed

lemma readHabit_writeHabit: "readHabit (writeHabit h @ rest) = Some (h, rest)"
proof -
  have int: "readInt (writeInt (streak h) @ '','' @ tail) = Some (streak h, '','' @ tail)" for tail
    by (rule readInt_writeInt) (simp add: isDigit_def)
  have e1: "expect (''{'' @ writeString ''id'' @ '':'') (''{'' @ writeString ''id'' @ '':'' @ tail) = Some tail" for tail
    using expect_append [of "''{'' @ writeString ''id'' @ '':''" tail] by (simp only: append_assoc)
  have e2: "expect ('','' @ writeString ''name'' @ '':'') ('','' @ writeString ''name'' @ '':'' @ tail) = Some tail" for tail
    using expect_append [of "'','' @ writeString ''name'' @ '':''" tail] by (simp only: append_assoc)
  have e3: "expect ('','' @ writeString ''streak'' @ '':'') ('','' @ writeString ''streak'' @ '':'' @ tail) = Some tail" for tail
    using expect_append [of "'','' @ writeString ''streak'' @ '':''" tail] by (simp only: append_assoc)
  have e4: "expect ('','' @ writeString ''lastCompleted'' @ '':'') ('','' @ writeString ''lastCompleted'' @ '':'' @ tail) = Some tail" for tail
    using expect_append [of "'','' @ writeString ''lastCompleted'' @ '':''" tail] by (simp only: append_assoc)
  have e5: "expect ('','' @ writeString ''createdAt'' @ '':'') ('','' @ writeString ''createdAt'' @ '':'' @ tail) = Some tail" for tail
    using expect_append [of "'','' @ writeString ''createdAt'' @ '':''" tail] by (simp only: append_assoc)
  have e6: "expect ''}'' (''}'' @ tail) = Some tail" for tail
    by (rule expect_append)
  show ?thesis
    unfolding readHabit_def writeHabit_def append_assoc
    by (simp only: e1 e2 e3 e4 e5 e6 int readString_writeString readNullable_write
        Option.bind.simps prod.case Habit.surjective [symmetric] Habit.simps)
      (simp add: Habit.equality)
qed

lemma writeHabit_brace: "\<exists>tail. writeHabit h = CHR ''{'' # tail"
  by (simp add: writeHabit_def)

lemma length_writeHabit: "0 < length (writeHabit h)"
  by (simp add: writeHabit_def)

lemma readMore_joinComma:
  "length hs < fuel \<Longrightarrow>
   readMore fuel (joinComma (map writeHabit (h # hs)) @ '']'') = Some (h # hs)"
proof (induction hs arbitrary: h fuel)
  case Nil
  then obtain k where "fuel = Suc k" by (cases fuel) auto
  then show ?case by (simp add: readHabit_writeHabit)
next
  case (Cons y ys)
  then obtain k where k: "fuel = Suc k" "length ys < k" by (cases fuel) auto
  have step: "readHabit (writeHabit h @ '','' @ joinComma (map writeHabit (y # ys)) @ '']'')
      = Some (h, '','' @ joinComma (map writeHabit (y # ys)) @ '']'')"
    by (rule readHabit_writeHabit)
  have ex: "expect '','' ('','' @ joinComma (map writeHabit (y # ys)) @ '']'')
      = Some (joinComma (map writeHabit (y # ys)) @ '']'')"
    by (rule expect_append)
  have ne: "'','' @ joinComma (map writeHabit (y # ys)) @ '']'' \<noteq> '']''"
    by simp
  have "readMore (Suc k) (writeHabit h @ '','' @ joinComma (map writeHabit (y # ys)) @ '']'')
      = map_option ((#) h) (readMore k (joinComma (map writeHabit (y # ys)) @ '']''))"
    by (simp only: readMore.simps step option.case prod.case ne if_False ex)
  also have "\<dots> = Some (h # y # ys)"
    using Cons.IH [OF k(2)] by simp
  finally show ?case using k by simp
qed

lemma length_joinComma: "length hs \<le> length (joinComma (map writeHabit hs))"
proof (induction hs rule: induct_list012)
  case 1
  then show ?case by simp
next
  case (2 h)
  then show ?case using length_writeHabit [of h] by (simp add: Suc_le_eq)
next
  case (3 h y ys)
  then show ?case using length_writeHabit [of h] by simp
qed

lemma readHabits_writeHabits: "readHabits (writeHabits hs) = Some hs"
proof (cases hs)
  case Nil
  then show ?thesis by (simp add: readHabits_def writeHabits_def expect_def)
next
  case (Cons h tl)
  let ?rest = "joinComma (map writeHabit hs) @ '']''"
  have ex: "expect ''['' (writeHabits hs) = Some ?rest"
    unfolding writeHabits_def by (rule expect_append)
  obtain tail where "writeHabit h = CHR ''{'' # tail"
    using writeHabit_brace by blast
  then have ne: "?rest \<noteq> '']''"
    using Cons by (cases tl) auto
  have "length tl < length ?rest"
    using length_joinComma [of hs] Cons by simp
  then have "readMore (length ?rest) (joinComma (map writeHabit (h # tl)) @ '']'') = Some (h # tl)"
    by (rule readMore_joinComma)
  with Cons ex ne show ?thesis
    by (simp add: readHabits_def)
qed

lemma writeHabits_nonempty: "writeHabits hs \<noteq> []"
  by (simp add: writeHabits_def)

lemma utcDevice_round_trip:
  "parseStored utcDevice (Some (JSON_stringify utcDevice hs)) = Inr hs"
  by (simp add: parseStored_def utcDevice_def readHabits_writeHabits writeHabits_nonempty)

subsection \<open>Loading and saving\<close>

text \<open>The three ways through \<^verbatim>\<open>loadHabits\<close>; each of them ends in a state.\<close>

lemma loadHabits_storage_fails:
  "storageFails st \<Longrightarrow>
   loadHabits P c st = Inr (console_error ''Load habits error:'' StorageError st)"
  by (simp add: loadHabits_def try_catch_def getItem_def)

lemma loadHabits_parse_fails:
  "\<not> storageFails st \<Longrightarrow> parseStored P (storage st) = Inl e \<Longrightarrow>
   loadHabits P c st = Inr (console_error ''Load habits error:'' e st)"
  by (simp add: loadHabits_def try_catch_def getItem_def)

lemma loadHabits_parsed:
  "\<not> storageFails st \<Longrightarrow> parseStored P (storage st) = Inr hs \<Longrightarrow>
   loadHabits P c st =
     Inr (if JSON_stringify P hs \<noteq> JSON_stringify P (resetStreaksIfNeeded P c hs)
          then st\<lparr>habits := resetStreaksIfNeeded P c hs,
                  storage := Some (JSON_stringify P (resetStreaksIfNeeded P c hs))\<rparr>
          else st\<lparr>habits := resetStreaksIfNeeded P c hs\<rparr>)"
  by (simp add: loadHabits_def try_catch_def getItem_def Let_def saveHabits_returns)

lemma loadHabits_returns: "\<exists>st'. loadHabits P c st = Inr st'"
proof (cases "storageFails st")
  case True
  then show ?thesis by (simp add: loadHabits_storage_fails)
next
  case False
  then show ?thesis
    by (cases "parseStored P (storage st)")
      (simp_all add: loadHabits_parse_fails loadHabits_parsed)
qed

lemma parseStored_syntax:
  "d \<noteq> [] \<Longrightarrow> JSON_parse P d = None \<Longrightarrow> parseStored P (Some d) = Inl SyntaxError"
  by (simp add: parseStored_def)

text \<open>
  Claim C7, as amended. \<^verbatim>\<open>loadHabits\<close> never passes an error to its caller. When the
  stored content is present and its deserialization fails, the \<^verbatim>\<open>catch\<close> block logs
  "Load habits error:" and the call completes normally: the habit list in memory (the
  empty list at startup) and the stored content stay as they were.
\<close>

theorem loadHabits_swallows_parse_failure:
  "(\<exists>st'. loadHabits P c st = Inr st')
   \<and> (\<not> storageFails st \<and> storage st = Some d \<and> d \<noteq> [] \<and> JSON_parse P d = None \<longrightarrow>
        loadHabits P c st =
          Inr (st\<lparr>console := console st @ [(''Load habits error:'', SyntaxError)]\<rparr>))"
  using loadHabits_returns [of P c st]
  by (auto simp: loadHabits_parse_fails parseStored_syntax console_error_def)

theorem loadHabits_swallows_parse_failure_witness:
  "\<not> storageFails truncated
   \<and> storage truncated = Some (take 40 (writeHabits [hToday]))
   \<and> take 40 (writeHabits [hToday]) \<noteq> []
   \<and> JSON_parse utcDevice (take 40 (writeHabits [hToday])) = None
   \<and> loadHabits utcDevice morning truncated =
       Inr (truncated\<lparr>console := [(''Load habits error:'', SyntaxError)]\<rparr>)"
proof -
  have hyp: "\<not> storageFails truncated"
    "storage truncated = Some (take 40 (writeHabits [hToday]))"
    "take 40 (writeHabits [hToday]) \<noteq> []"
    "JSON_parse utcDevice (take 40 (writeHabits [hToday])) = None"
    by code_simp+
  have c: "console truncated = []" by code_simp
  from loadHabits_swallows_parse_failure
    [of utcDevice morning truncated "take 40 (writeHabits [hToday])"] hyp c
  have "loadHabits utcDevice morning truncated =
       Inr (truncated\<lparr>console := [(''Load habits error:'', SyntaxError)]\<rparr>)"
    by simp
  with hyp show ?thesis by simp
qed

text \<open>
  Claim C7 as stated asks for the parse failure to reach the caller as an error instead of
  an empty habit list. At startup over stored content that is not JSON, the call returns
  normally and the habit list is empty.
\<close>

theorem C7_counterexample:
  "storage corrupted = Some ''{not json''
   \<and> JSON_parse utcDevice ''{not json'' = None
   \<and> habits corrupted = []
   \<and> loadHabits utcDevice morning corrupted =
       Inr (corrupted\<lparr>console := [(''Load habits error:'', SyntaxError)]\<rparr>)
   \<and> habits (corrupted\<lparr>console := [(''Load habits error:'', SyntaxError)]\<rparr>) = []"
  by code_simp

text \<open>
  Claim C4. Let the device storage work, let the stored content be absent or the text of a
  habit list, and let the JSON text of the list held after the load read back as that
  list (the round trip of \<^verbatim>\<open>JSON.stringify\<close> and \<^verbatim>\<open>JSON.parse\<close>). Then the load
  holds the reset list; saving it stores its JSON text; and a second load at any time of
  the same calendar day changes nothing: neither the stored text nor the list nor any
  other part of the state. The reset list is a fixed point of the reset, and a second
  load right after the first, without the save, changes nothing either.
\<close>

theorem load_save_load_idempotent:
  assumes "\<not> storageFails st0"
    and "parseStored P (storage st0) = Inr hs0"
    and "now c' = now c"
    and "parseStored P (Some (JSON_stringify P (resetStreaksIfNeeded P c hs0)))
           = Inr (resetStreaksIfNeeded P c hs0)"
  shows "\<exists>st1 st2 st3.
           loadHabits P c st0 = Inr st1
           \<and> saveHabits P (habits st1) st1 = Inr st2
           \<and> loadHabits P c' st2 = Inr st3
           \<and> habits st1 = resetStreaksIfNeeded P c hs0
           \<and> resetStreaksIfNeeded P c' (habits st1) = habits st1
           \<and> storage st2 = Some (JSON_stringify P (habits st1))
           \<and> st3 = st2
           \<and> loadHabits P c' st1 = Inr st1"
proof -
  let ?r = "resetStreaksIfNeeded P c hs0"
  let ?t = "JSON_stringify P ?r"
  have same: "resetStreaksIfNeeded P c' hs = resetStreaksIfNeeded P c hs" for hs
    using assms(3) by (rule resetStreaksIfNeeded_same_day)
  have idem: "resetStreaksIfNeeded P c' ?r = ?r"
    by (simp add: same resetStreaksIfNeeded_idem)
  obtain st1 where st1: "loadHabits P c st0 = Inr st1" "habits st1 = ?r"
    "\<not> storageFails st1"
    and stored: "(storage st1 = storage st0 \<and> JSON_stringify P hs0 = ?t) \<or> storage st1 = Some ?t"
    using assms(1,2) by (simp add: loadHabits_parsed)
  let ?st2 = "st1\<lparr>storage := Some ?t\<rparr>"
  have st2: "saveHabits P (habits st1) st1 = Inr ?st2"
    using st1 by (simp add: saveHabits_returns)
  have "loadHabits P c' ?st2 = Inr (?st2\<lparr>habits := ?r\<rparr>)"
    using st1(3) assms(4) by (simp add: loadHabits_parsed idem)
  then have st3: "loadHabits P c' ?st2 = Inr ?st2"
    using st1(2) by simp
  have again: "loadHabits P c' st1 = Inr st1"
  proof -
    from stored show ?thesis
    proof
      assume a: "storage st1 = storage st0 \<and> JSON_stringify P hs0 = ?t"
      then have "parseStored P (storage st1) = Inr hs0"
        using assms(2) by simp
      then have "loadHabits P c' st1 = Inr (st1\<lparr>habits := ?r\<rparr>)"
        using st1(3) a by (simp add: loadHabits_parsed same)
      then show ?thesis using st1(2) by simp
    next
      assume "storage st1 = Some ?t"
      then have "parseStored P (storage st1) = Inr ?r"
        using assms(4) by simp
      then have "loadHabits P c' st1 = Inr (st1\<lparr>habits := ?r\<rparr>)"
        using st1(3) by (simp add: loadHabits_parsed idem)
      then show ?thesis using st1(2) by simp
    qed
  qed
  from st1 st2 st3 idem again show ?thesis by simp
qed

theorem load_save_load_idempotent_witness:
  "\<not> storageFails relaunch
   \<and> parseStored utcDevice (storage relaunch) = Inr [hOld, hToday]
   \<and> now evening = now morning
   \<and> resetStreaksIfNeeded utcDevice morning [hOld, hToday]
       = [hOld\<lparr>streak := 0\<rparr>, hToday]
   \<and> parseStored utcDevice
        (Some (JSON_stringify utcDevice [hOld\<lparr>streak := 0\<rparr>, hToday]))
       = Inr [hOld\<lparr>streak := 0\<rparr>, hToday]
   \<and> (\<exists>st1 st2 st3.
           loadHabits utcDevice morning relaunch = Inr st1
           \<and> saveHabits utcDevice (habits st1) st1 = Inr st2
           \<and> loadHabits utcDevice evening st2 = Inr st3
           \<and> habits st1 = [hOld\<lparr>streak := 0\<rparr>, hToday]
           \<and> storage st2 = Some (writeHabits [hOld\<lparr>streak := 0\<rparr>, hToday])
           \<and> st3 = st2)"
proof -
  let ?hs = "[hOld, hToday]"
  let ?r = "[hOld\<lparr>streak := 0\<rparr>, hToday]"
  have h1: "\<not> storageFails relaunch" by code_simp
  have "storage relaunch = Some (JSON_stringify utcDevice ?hs)" by code_simp
  then have h2: "parseStored utcDevice (storage relaunch) = Inr ?hs"
    by (simp only: utcDevice_round_trip)
  have day: "now evening = now morning" by code_simp
  have r: "resetStreaksIfNeeded utcDevice morning ?hs = ?r" by code_simp
  have h3: "parseStored utcDevice (Some (JSON_stringify utcDevice ?r)) = Inr ?r"
    by (rule utcDevice_round_trip)
  have w: "JSON_stringify utcDevice ?r = writeHabits ?r" by code_simp
  from load_save_load_idempotent [of relaunch utcDevice ?hs evening morning, OF h1 h2 day] h3 r w
  have "\<exists>st1 st2 st3.
           loadHabits utcDevice morning relaunch = Inr st1
           \<and> saveHabits utcDevice (habits st1) st1 = Inr st2
           \<and> loadHabits utcDevice evening st2 = Inr st3
           \<and> habits st1 = ?r
           \<and> storage st2 = Some (writeHabits ?r)
           \<and> st3 = st2"
    by (simp only:) metis
  with h1 h2 day r h3 show ?thesis by blast
qed

subsection \<open>The leaderboard\<close>

text \<open>The sort: a permutation, descending by total, stable.\<close>

lemma mset_insertSorted: "mset (insertSorted cmp x ys) = add_mset x (mset ys)"
  by (induction ys) auto

lemma mset_Array_sort: "mset (Array_sort cmp xs) = mset xs"
  by (induction xs) (auto simp: mset_insertSorted)

lemma set_insertSorted: "set (insertSorted cmp x ys) = insert x (set ys)"
  by (induction ys) auto

lemma byTotalDesc_le: "byTotalDesc a b \<le> 0 \<longleftrightarrow> orZero (totalStreak b) \<le> orZero (totalStreak a)"
  by (simp add: byTotalDesc_def)

lemma sorted_insertSorted:
  "sorted_wrt (\<lambda>a b. orZero (totalStreak b) \<le> orZero (totalStreak a)) ys \<Longrightarrow>
   sorted_wrt (\<lambda>a b. orZero (totalStreak b) \<le> orZero (totalStreak a))
     (insertSorted byTotalDesc x ys)"
  by (induction ys) (auto simp: set_insertSorted byTotalDesc_le)

lemma sorted_Array_sort:
  "sorted_wrt (\<lambda>a b. orZero (totalStreak b) \<le> orZero (totalStreak a))
     (Array_sort byTotalDesc xs)"
  by (induction xs) (auto simp: sorted_insertSorted)

lemma filter_insertSorted:
  "filter (\<lambda>p. orZero (totalStreak p) = k) (insertSorted byTotalDesc x ys) =
     (if orZero (totalStreak x) = k then x # filter (\<lambda>p. orZero (totalStreak p) = k) ys
      else filter (\<lambda>p. orZero (totalStreak p) = k) ys)"
  by (induction ys) (auto simp: byTotalDesc_le)

lemma filter_Array_sort:
  "filter (\<lambda>p. orZero (totalStreak p) = k) (Array_sort byTotalDesc xs) =
   filter (\<lambda>p. orZero (totalStreak p) = k) xs"
  by (induction xs) (auto simp: filter_insertSorted)

lemma insertSorted_split:
  "insertSorted cmp x ys =
     takeWhile (\<lambda>y. 0 < cmp x y) ys @ x # dropWhile (\<lambda>y. 0 < cmp x y) ys"
  by (induction ys) auto

lemma insertSorted_position:
  assumes "sorted_wrt (\<lambda>a b. orZero (totalStreak b) \<le> orZero (totalStreak a)) ys"
  shows "\<exists>pre post. insertSorted byTotalDesc x ys = pre @ x # post \<and> ys = pre @ post
           \<and> (\<forall>p \<in> set pre. orZero (totalStreak x) < orZero (totalStreak p))
           \<and> (\<forall>p \<in> set post. orZero (totalStreak p) \<le> orZero (totalStreak x))"
proof -
  let ?pre = "takeWhile (\<lambda>y. 0 < byTotalDesc x y) ys"
  let ?post = "dropWhile (\<lambda>y. 0 < byTotalDesc x y) ys"
  have a: "insertSorted byTotalDesc x ys = ?pre @ x # ?post"
    by (rule insertSorted_split)
  have b: "ys = ?pre @ ?post" by simp
  have c: "\<forall>p \<in> set ?pre. orZero (totalStreak x) < orZero (totalStreak p)"
    by (auto dest: set_takeWhileD simp: byTotalDesc_def)
  have "sorted_wrt (\<lambda>a b. orZero (totalStreak b) \<le> orZero (totalStreak a)) (x # ?post)"
    using sorted_insertSorted [OF assms, of x] unfolding a
    by (simp add: sorted_wrt_append)
  then have d: "\<forall>p \<in> set ?post. orZero (totalStreak p) \<le> orZero (totalStreak x)"
    by simp
  from a b c d show ?thesis by blast
qed

text \<open>Totals, and the object built from the habit names.\<close>

lemma foldl_plus: "foldl (\<lambda>sum s. sum + s) a xs = (a::int) + sum_list xs"
  by (induction xs arbitrary: a) auto

lemma totalStreak_withTotal:
  "totalStreak (withTotal p) = Some (sum_list (map snd (p_habits p)))"
  by (simp add: withTotal_def Object_values_def foldl_plus)

lemma withTotal_fields:
  "p_id (withTotal p) = p_id p \<and> p_name (withTotal p) = p_name p
   \<and> p_habits (withTotal p) = p_habits p \<and> isUser (withTotal p) = isUser p"
  by (simp add: withTotal_def)

lemma map_fst_setKey:
  "map fst (setKey k v kvs) =
     (if k \<in> set (map fst kvs) then map fst kvs else map fst kvs @ [k])"
  by (induction kvs) force+

lemma distinct_setKey: "distinct (map fst kvs) \<Longrightarrow> distinct (map fst (setKey k v kvs))"
  by (simp add: map_fst_setKey)

lemma map_of_setKey: "map_of (setKey k v kvs) = (map_of kvs)(k \<mapsto> v)"
  by (induction kvs) (auto simp: fun_upd_twist)

lemma setKey_fresh: "k \<notin> fst ` set kvs \<Longrightarrow> setKey k v kvs = kvs @ [(k, v)]"
  by (induction kvs) auto

lemma distinct_assign: "distinct (map fst acc) \<Longrightarrow> distinct (map fst (assign acc k v))"
  by (simp add: assign_def distinct_setKey)

lemma distinct_foldl_assign:
  "distinct (map fst acc) \<Longrightarrow>
   distinct (map fst (foldl (\<lambda>acc h. assign acc (toLowerCase (h_name h)) (streak h)) acc hs))"
  by (induction hs arbitrary: acc) (auto simp: distinct_assign)

lemma map_of_foldl_assign:
  "map_of (foldl (\<lambda>acc h. assign acc (toLowerCase (h_name h)) (streak h)) acc hs) =
   map_of (rev (map (\<lambda>h. (toLowerCase (h_name h), streak h))
                  (filter (\<lambda>h. toLowerCase (h_name h) \<noteq> ''__proto__'') hs)) @ acc)"
proof (induction hs arbitrary: acc)
  case Nil
  then show ?case by simp
next
  case (Cons h hs)
  show ?case
  proof (cases "toLowerCase (h_name h) = ''__proto__''")
    case True
    then show ?thesis using Cons.IH [of acc] by (simp add: assign_def)
  next
    case False
    then show ?thesis
      using Cons.IH [of "setKey (toLowerCase (h_name h)) (streak h) acc"]
      by (simp add: assign_def map_of_setKey)
  qed
qed

lemma foldl_assign_distinct:
  "distinct (map (\<lambda>h. toLowerCase (h_name h)) hs) \<Longrightarrow>
   \<forall>h \<in> set hs. toLowerCase (h_name h) \<noteq> ''__proto__'' \<Longrightarrow>
   \<forall>h \<in> set hs. toLowerCase (h_name h) \<notin> fst ` set acc \<Longrightarrow>
   foldl (\<lambda>acc h. assign acc (toLowerCase (h_name h)) (streak h)) acc hs =
     acc @ map (\<lambda>h. (toLowerCase (h_name h), streak h)) hs"
proof (induction hs arbitrary: acc)
  case Nil
  then show ?case by simp
next
  case (Cons h hs)
  let ?k = "toLowerCase (h_name h)"
  have step: "assign acc ?k (streak h) = acc @ [(?k, streak h)]"
    using Cons.prems by (simp add: assign_def setKey_fresh)
  have "\<forall>h' \<in> set hs. toLowerCase (h_name h') \<notin> fst ` set (acc @ [(?k, streak h)])"
    using Cons.prems by (auto simp: image_iff)
  with Cons.prems have "foldl (\<lambda>acc h. assign acc (toLowerCase (h_name h)) (streak h))
          (acc @ [(?k, streak h)]) hs =
        (acc @ [(?k, streak h)]) @ map (\<lambda>h. (toLowerCase (h_name h), streak h)) hs"
    by (intro Cons.IH) auto
  with step show ?case by simp
qed

lemma userHabits_distinct_names:
  "distinct (map (\<lambda>h. toLowerCase (h_name h)) hs) \<Longrightarrow>
   \<forall>h \<in> set hs. toLowerCase (h_name h) \<noteq> ''__proto__'' \<Longrightarrow>
   userHabits hs = map (\<lambda>h. (toLowerCase (h_name h), streak h)) hs"
  using foldl_assign_distinct [of hs "[]"] by (simp add: userHabits_def)

lemma filter_isUser_friends:
  "filter (\<lambda>p. isUser p = Some True) (map withTotal MOCK_FRIENDS) = []"
  by (simp add: MOCK_FRIENDS_def withTotal_def)

lemma filter_isUser_leaderboard:
  "filter (\<lambda>p. isUser p = Some True) (getLeaderboardData hs) = [withTotal (userEntry hs)]"
proof -
  have "mset (filter (\<lambda>p. isUser p = Some True) (getLeaderboardData hs)) =
        mset (filter (\<lambda>p. isUser p = Some True) (map withTotal (userEntry hs # MOCK_FRIENDS)))"
    by (simp add: getLeaderboardData_def Let_def mset_Array_sort del: filter.simps list.map)
  also have "\<dots> = {#withTotal (userEntry hs)#}"
    using filter_isUser_friends by (simp add: withTotal_def userEntry_def)
  finally show ?thesis by (simp only: mset_single_iff)
qed

text \<open>
  Claim C5, as amended. For every habit list, the empty one included, the leaderboard has
  exactly one entry marked as the user, named "You". Its \<^verbatim>\<open>totalStreak\<close> is the sum of the
  values of its \<^verbatim>\<open>habits\<close> object, which has one key for each distinct lowercase habit
  name, holding the streak of the last habit of that name (the name \<^verbatim>\<open>__proto__\<close> creates
  no key). The total is the sum of the streaks of all habits when the lowercase names are
  pairwise distinct and none is \<^verbatim>\<open>__proto__\<close>; it is 0 for the empty list.
\<close>

theorem leaderboard_user_total:
  "filter (\<lambda>p. isUser p = Some True) (getLeaderboardData hs) = [withTotal (userEntry hs)]
   \<and> p_name (withTotal (userEntry hs)) = ''You''
   \<and> p_habits (withTotal (userEntry hs)) = userHabits hs
   \<and> totalStreak (withTotal (userEntry hs)) = Some (sum_list (map snd (userHabits hs)))
   \<and> distinct (map fst (userHabits hs))
   \<and> map_of (userHabits hs) =
       map_of (rev (map (\<lambda>h. (toLowerCase (h_name h), streak h))
                      (filter (\<lambda>h. toLowerCase (h_name h) \<noteq> ''__proto__'') hs)))
   \<and> (distinct (map (\<lambda>h. toLowerCase (h_name h)) hs)
        \<and> (\<forall>h \<in> set hs. toLowerCase (h_name h) \<noteq> ''__proto__'')
      \<longrightarrow> totalStreak (withTotal (userEntry hs)) = Some (sum_list (map streak hs)))"
proof (intro conjI impI)
  show "filter (\<lambda>p. isUser p = Some True) (getLeaderboardData hs) = [withTotal (userEntry hs)]"
    by (rule filter_isUser_leaderboard)
  show "p_name (withTotal (userEntry hs)) = ''You''"
    by (simp add: withTotal_def userEntry_def)
  show "p_habits (withTotal (userEntry hs)) = userHabits hs"
    by (simp add: withTotal_def userEntry_def)
  show "totalStreak (withTotal (userEntry hs)) = Some (sum_list (map snd (userHabits hs)))"
    by (simp add: totalStreak_withTotal userEntry_def)
  show "distinct (map fst (userHabits hs))"
    unfolding userHabits_def by (rule distinct_foldl_assign) simp
  show "map_of (userHabits hs) =
       map_of (rev (map (\<lambda>h. (toLowerCase (h_name h), streak h))
                      (filter (\<lambda>h. toLowerCase (h_name h) \<noteq> ''__proto__'') hs)))"
    unfolding userHabits_def using map_of_foldl_assign [of "[]" hs] by simp
next
  assume "distinct (map (\<lambda>h. toLowerCase (h_name h)) hs)
        \<and> (\<forall>h \<in> set hs. toLowerCase (h_name h) \<noteq> ''__proto__'')"
  then have "userHabits hs = map (\<lambda>h. (toLowerCase (h_name h), streak h)) hs"
    by (simp add: userHabits_distinct_names)
  then show "totalStreak (withTotal (userEntry hs)) = Some (sum_list (map streak hs))"
    by (simp add: totalStreak_withTotal userEntry_def comp_def)
qed


theorem leaderboard_user_total_witness:
  "distinct (map (\<lambda>h. toLowerCase (h_name h)) [hNever, hYesterday, hToday])
   \<and> list_all (\<lambda>h. toLowerCase (h_name h) \<noteq> ''__proto__'') [hNever, hYesterday, hToday]
   \<and> sum_list (map streak [hNever, hYesterday, hToday]) = 7
   \<and> totalStreak (withTotal (userEntry [hNever, hYesterday, hToday])) = Some 7
   \<and> totalStreak (withTotal (userEntry [])) = Some 0"
proof -
  let ?hs = "[hNever, hYesterday, hToday]"
  have d: "distinct (map (\<lambda>h. toLowerCase (h_name h)) ?hs)" by code_simp
  have p: "list_all (\<lambda>h. toLowerCase (h_name h) \<noteq> ''__proto__'') ?hs" by code_simp
  have s: "sum_list (map streak ?hs) = 7" by code_simp
  from p have p': "\<forall>h \<in> set ?hs. toLowerCase (h_name h) \<noteq> ''__proto__''"
    by (simp only: list_all_iff)
  have "distinct (map (\<lambda>h. toLowerCase (h_name h)) ?hs)
        \<and> (\<forall>h \<in> set ?hs. toLowerCase (h_name h) \<noteq> ''__proto__'')
      \<longrightarrow> totalStreak (withTotal (userEntry ?hs)) = Some (sum_list (map streak ?hs))"
    using leaderboard_user_total [of ?hs] by blast
  with d p' have "totalStreak (withTotal (userEntry ?hs)) = Some (sum_list (map streak ?hs))"
    by blast
  with s have t: "totalStreak (withTotal (userEntry ?hs)) = Some 7"
    by (simp only:)
  have e: "totalStreak (withTotal (userEntry [])) = Some 0"
    by code_simp
  from d p s t e show ?thesis by simp
qed

text \<open>
  Claim C5 as stated equates the total with the sum of all streaks. Two habits named
  "Run" and "RUN", with streaks 5 and 2, share the key \<^verbatim>\<open>run\<close>: the total is 2, not 7.
\<close>

theorem C5_counterexample:
  "length (getLeaderboardData twoRuns) = 5
   \<and> getLeaderboardData twoRuns ! 4 =
       \<lparr>p_id = ''user'', p_name = ''You'', p_habits = [(''run'', 2)],
        isUser = Some True, totalStreak = Some 2\<rparr>
   \<and> map isUser (getLeaderboardData twoRuns) = [None, None, None, None, Some True]
   \<and> map streak twoRuns = [5, 2]
   \<and> sum_list (map streak twoRuns) = 7"
  by code_simp

text \<open>
  Claim C6. The leaderboard is sorted by \<^verbatim>\<open>totalStreak\<close>, largest first; it is a
  permutation of the entry "You" and the four peers, each with its total; entries with
  equal totals keep the order of construction; and every entry before "You" has a strictly
  larger total, so "You" precedes each peer with the same total.
\<close>

theorem leaderboard_sorted:
  "sorted_wrt (\<lambda>a b. orZero (totalStreak b) \<le> orZero (totalStreak a)) (getLeaderboardData hs)
   \<and> mset (getLeaderboardData hs) = mset (map withTotal (userEntry hs # MOCK_FRIENDS))
   \<and> length (getLeaderboardData hs) = 5
   \<and> (\<forall>k. filter (\<lambda>p. orZero (totalStreak p) = k) (getLeaderboardData hs) =
            filter (\<lambda>p. orZero (totalStreak p) = k) (map withTotal (userEntry hs # MOCK_FRIENDS)))
   \<and> (\<exists>pre post.
         getLeaderboardData hs = pre @ withTotal (userEntry hs) # post
         \<and> pre @ post = Array_sort byTotalDesc (map withTotal MOCK_FRIENDS)
         \<and> (\<forall>p \<in> set pre. orZero (totalStreak (withTotal (userEntry hs))) < orZero (totalStreak p))
         \<and> (\<forall>p \<in> set post. orZero (totalStreak p) \<le> orZero (totalStreak (withTotal (userEntry hs)))))"
proof (intro conjI allI)
  show "sorted_wrt (\<lambda>a b. orZero (totalStreak b) \<le> orZero (totalStreak a)) (getLeaderboardData hs)"
    by (simp add: getLeaderboardData_def Let_def sorted_Array_sort del: Array_sort.simps list.map)
  show m: "mset (getLeaderboardData hs) = mset (map withTotal (userEntry hs # MOCK_FRIENDS))"
    by (simp add: getLeaderboardData_def Let_def mset_Array_sort del: Array_sort.simps list.map)
  have "length (getLeaderboardData hs) = length (map withTotal (userEntry hs # MOCK_FRIENDS))"
    using m by (rule mset_eq_length)
  then show "length (getLeaderboardData hs) = 5"
    by (simp add: MOCK_FRIENDS_def)
  show "filter (\<lambda>p. orZero (totalStreak p) = k) (getLeaderboardData hs) =
        filter (\<lambda>p. orZero (totalStreak p) = k) (map withTotal (userEntry hs # MOCK_FRIENDS))" for k
    by (simp add: getLeaderboardData_def Let_def filter_Array_sort del: Array_sort.simps list.map filter.simps)
  have "getLeaderboardData hs =
        insertSorted byTotalDesc (withTotal (userEntry hs))
          (Array_sort byTotalDesc (map withTotal MOCK_FRIENDS))"
    by (simp add: getLeaderboardData_def Let_def)
  with insertSorted_position [OF sorted_Array_sort, of "withTotal (userEntry hs)" "map withTotal MOCK_FRIENDS"]
  show "\<exists>pre post.
         getLeaderboardData hs = pre @ withTotal (userEntry hs) # post
         \<and> pre @ post = Array_sort byTotalDesc (map withTotal MOCK_FRIENDS)
         \<and> (\<forall>p \<in> set pre. orZero (totalStreak (withTotal (userEntry hs))) < orZero (totalStreak p))
         \<and> (\<forall>p \<in> set post. orZero (totalStreak p) \<le> orZero (totalStreak (withTotal (userEntry hs))))"
    by metis
qed

theorem leaderboard_sorted_witness:
  "map p_name (getLeaderboardData tied) = [''Alex'', ''You'', ''Sam'', ''Taylor'', ''Jordan'']
   \<and> map totalStreak (getLeaderboardData tied) = [Some 75, Some 68, Some 68, Some 63, Some 60]
   \<and> sorted_wrt (\<lambda>a b. orZero (totalStreak b) \<le> orZero (totalStreak a)) (getLeaderboardData tied)
   \<and> mset (getLeaderboardData tied) = mset (map withTotal (userEntry tied # MOCK_FRIENDS))
   \<and> (\<exists>pre post. getLeaderboardData tied = pre @ withTotal (userEntry tied) # post
         \<and> map p_name pre = [''Alex''] \<and> map p_name post = [''Sam'', ''Taylor'', ''Jordan''])"
proof -
  have names: "map p_name (getLeaderboardData tied) = [''Alex'', ''You'', ''Sam'', ''Taylor'', ''Jordan'']"
    by code_simp
  have totals: "map totalStreak (getLeaderboardData tied) = [Some 75, Some 68, Some 68, Some 63, Some 60]"
    by code_simp
  have split: "getLeaderboardData tied =
      [getLeaderboardData tied ! 0] @ withTotal (userEntry tied) #
        [getLeaderboardData tied ! 2, getLeaderboardData tied ! 3, getLeaderboardData tied ! 4]"
    by code_simp
  have pre: "map p_name [getLeaderboardData tied ! 0] = [''Alex'']" by code_simp
  have post: "map p_name [getLeaderboardData tied ! 2, getLeaderboardData tied ! 3,
       getLeaderboardData tied ! 4] = [''Sam'', ''Taylor'', ''Jordan'']" by code_simp
  from split pre post have ex: "\<exists>pre post. getLeaderboardData tied = pre @ withTotal (userEntry tied) # post
         \<and> map p_name pre = [''Alex''] \<and> map p_name post = [''Sam'', ''Taylor'', ''Jordan'']"
    by (intro exI [of _ "[getLeaderboardData tied ! 0]"]
          exI [of _ "[getLeaderboardData tied ! 2, getLeaderboardData tied ! 3,
                      getLeaderboardData tied ! 4]"] conjI)
  from leaderboard_sorted [of tied] names totals ex show ?thesis by simp
qed

end
